theory Spec2Isabelle
  imports Complex_Main "HOL-Library.Word" "HOL-Library.Sublist" "HOL-Library.Multiset"
begin

section \<open>Values of the host language\<close>

subsection \<open>Strings and arrays\<close>

text \<open>
  A string of the source is a sequence of 16-bit code units; \<open>length\<close>, \<open>slice\<close>,
  \<open>trim\<close>, concatenation and \<open>===\<close> all work on code units. \<open>lit\<close> embeds an
  ASCII literal.
\<close>

type_synonym jsstring = "16 word list"

definition lit :: "string \<Rightarrow> jsstring" where
  "lit s = map of_char s"

definition newline :: jsstring where
  "newline = [10]"

definition dquote :: jsstring where
  "dquote = [34]"

text \<open>
  \<open>xs.slice(start, fin)\<close> of strings and arrays, for integer arguments: a negative
  bound counts from the end, and both bounds are clamped to the length.
\<close>

definition slice :: "'a list \<Rightarrow> int \<Rightarrow> int \<Rightarrow> 'a list" where
  "slice xs start fin =
     (let len = int (length xs);
          lo = (if start < 0 then max (len + start) 0 else min start len);
          hi = (if fin < 0 then max (len + fin) 0 else min fin len)
      in take (nat (hi - lo)) (drop (nat lo) xs))"

text \<open>\<open>xs[i]\<close>: \<open>undefined\<close> (here \<open>None\<close>) out of range.\<close>

definition item :: "'a list \<Rightarrow> nat \<Rightarrow> 'a option" where
  "item xs i = (if i < length xs then Some (xs ! i) else None)"

text \<open>\<open>String.prototype.trim\<close> strips white space and line terminators at both ends.\<close>

definition isWhiteSpace :: "16 word \<Rightarrow> bool" where
  "isWhiteSpace c =
     (c \<in> set [0x9, 0xA, 0xB, 0xC, 0xD, 0x20, 0xA0, 0x1680, 0x2028, 0x2029, 0x202F,
               0x205F, 0x3000, 0xFEFF]
      \<or> (0x2000 \<le> c \<and> c \<le> 0x200A))"

definition trim :: "jsstring \<Rightarrow> jsstring" where
  "trim s = rev (dropWhile isWhiteSpace (rev (dropWhile isWhiteSpace s)))"

subsection \<open>Numbers\<close>

text \<open>
  A \<open>number\<close> of the source is an IEEE binary64 value. A finite one is kept by the
  rational it denotes (the sign of zero is never observed by the code below).
\<close>

datatype number = NaN | Infinite bool | Finite rat

text \<open>\<open>Math.abs\<close> and unary minus.\<close>

fun js_abs :: "number \<Rightarrow> number" where
  "js_abs NaN = NaN"
| "js_abs (Infinite _) = Infinite True"
| "js_abs (Finite q) = Finite \<bar>q\<bar>"

fun js_neg :: "number \<Rightarrow> number" where
  "js_neg NaN = NaN"
| "js_neg (Infinite s) = Infinite (\<not> s)"
| "js_neg (Finite q) = Finite (- q)"

text \<open>The comparisons \<open>>=\<close>, \<open><\<close>, \<open>>\<close> and \<open>===\<close>: every comparison with NaN is false.\<close>

fun js_ge :: "number \<Rightarrow> number \<Rightarrow> bool" where
  "js_ge NaN _ = False"
| "js_ge _ NaN = False"
| "js_ge (Infinite True) _ = True"
| "js_ge (Infinite False) (Infinite s) = (\<not> s)"
| "js_ge (Infinite False) (Finite _) = False"
| "js_ge (Finite _) (Infinite s) = (\<not> s)"
| "js_ge (Finite a) (Finite b) = (b \<le> a)"

fun js_lt :: "number \<Rightarrow> number \<Rightarrow> bool" where
  "js_lt NaN _ = False"
| "js_lt _ NaN = False"
| "js_lt (Infinite True) _ = False"
| "js_lt (Infinite False) (Infinite s) = s"
| "js_lt (Infinite False) (Finite _) = True"
| "js_lt (Finite _) (Infinite s) = s"
| "js_lt (Finite a) (Finite b) = (a < b)"

definition js_gt :: "number \<Rightarrow> number \<Rightarrow> bool" where
  "js_gt a b = js_lt b a"

fun js_eq :: "number \<Rightarrow> number \<Rightarrow> bool" where
  "js_eq NaN _ = False"
| "js_eq _ NaN = False"
| "js_eq (Infinite s) (Infinite t) = (s = t)"
| "js_eq (Finite a) (Finite b) = (a = b)"
| "js_eq _ _ = False"

text \<open>
  Rounding a rational to binary64, to nearest and ties to even: 53 significant bits,
  least exponent \<open>-1074\<close>, overflow to an infinity from \<open>2^1024\<close> on.
  \<open>bits n\<close> is the number of binary digits of \<open>n\<close>, and \<open>ilog2 q\<close> the integer
  \<open>E\<close> with \<open>2^E \<le> q < 2^(E+1)\<close> for a positive \<open>q\<close>.
\<close>

fun bits :: "nat \<Rightarrow> nat" where
  "bits n = (if n = 0 then 0 else Suc (bits (n div 2)))"

declare bits.simps [simp del]

definition pow2 :: "int \<Rightarrow> rat" where
  "pow2 k = (if 0 \<le> k then 2 ^ nat k else 1 / 2 ^ nat (- k))"

definition ilog2 :: "rat \<Rightarrow> int" where
  "ilog2 q =
     (if 1 \<le> q then int (bits (nat \<lfloor>q\<rfloor>)) - 1
      else let b = int (bits (nat \<lfloor>1 / q\<rfloor>))
           in if q * pow2 (b - 1) = 1 then - (b - 1) else - b)"

definition roundHalfEven :: "rat \<Rightarrow> int" where
  "roundHalfEven y =
     (let f = \<lfloor>y\<rfloor>; r = y - of_int f
      in if r < 1 / 2 then f else if 1 / 2 < r then f + 1
         else if even f then f else f + 1)"

definition fl64 :: "rat \<Rightarrow> number" where
  "fl64 q =
     (if q = 0 then Finite 0
      else let a = \<bar>q\<bar>;
               e = max (ilog2 a - 52) (- 1074);
               m = roundHalfEven (a / pow2 e);
               v = of_int m * pow2 e
           in if pow2 1024 \<le> v then Infinite (0 < q)
              else Finite (if q < 0 then - v else v))"

text \<open>Subtraction, and division by a positive finite constant (\<open>cp / 100\<close>).\<close>

fun js_sub :: "number \<Rightarrow> number \<Rightarrow> number" where
  "js_sub NaN _ = NaN"
| "js_sub _ NaN = NaN"
| "js_sub (Infinite s) (Infinite t) = (if s = t then NaN else Infinite s)"
| "js_sub (Infinite s) (Finite _) = Infinite s"
| "js_sub (Finite _) (Infinite t) = Infinite (\<not> t)"
| "js_sub (Finite a) (Finite b) = fl64 (a - b)"

fun js_div_by :: "number \<Rightarrow> rat \<Rightarrow> number" where
  "js_div_by NaN d = NaN"
| "js_div_by (Infinite s) d = Infinite s"
| "js_div_by (Finite q) d = fl64 (q / d)"

subsection \<open>Numbers as text\<close>

definition digit :: "nat \<Rightarrow> 16 word" where
  "digit d = of_nat (48 + d)"

function decimal :: "nat \<Rightarrow> jsstring" where
  "decimal n = (if n < 10 then [digit n] else decimal (n div 10) @ [digit (n mod 10)])"
  by pat_completeness auto
termination
  by (relation "measure id") auto

declare decimal.simps [simp del]

text \<open>
  \<open>Number::toString\<close>, the conversion a template literal applies. An integer below
  \<open>10^21\<close> in magnitude is written in decimal digits; for every other finite value the
  engine's shortest round-trip notation is a parameter \<open>shortest\<close>.
\<close>

fun numberToString :: "(rat \<Rightarrow> jsstring) \<Rightarrow> number \<Rightarrow> jsstring" where
  "numberToString shortest NaN = lit ''NaN''"
| "numberToString shortest (Infinite s) = (if s then lit ''Infinity'' else lit ''-Infinity'')"
| "numberToString shortest (Finite q) =
     (if q = of_int \<lfloor>q\<rfloor> \<and> \<bar>q\<bar> < 10 ^ 21
      then (if q < 0 then lit ''-'' else []) @ decimal (nat \<bar>\<lfloor>q\<rfloor>\<bar>)
      else shortest q)"

text \<open>
  \<open>x.toFixed(1)\<close>: a value that is not finite is written by \<open>Number::toString\<close>, and so
  is a magnitude from \<open>10^21\<close> on; otherwise \<open>n\<close> is the integer nearest to ten times
  the magnitude (the larger one of two), its digits are padded to two, and the point
  goes before the last digit.
\<close>

definition toFixed1 :: "(rat \<Rightarrow> jsstring) \<Rightarrow> number \<Rightarrow> jsstring" where
  "toFixed1 shortest x =
     (case x of
        Finite q \<Rightarrow>
          (let s = (if q < 0 then lit ''-'' else []);
               y = \<bar>q\<bar>
           in if 10 ^ 21 \<le> y then s @ numberToString shortest (Finite y)
              else let n = nat \<lfloor>10 * y + 1 / 2\<rfloor>;
                       m = decimal n;
                       m = (if length m \<le> 1 then replicate (2 - length m) (digit 0) @ m else m)
                   in s @ butlast m @ lit ''.'' @ [last m])
      | _ \<Rightarrow> numberToString shortest x)"


subsection \<open>Values read from JSON, and thrown values\<close>

datatype json =
  JNull | JBool bool | JNum number | JStr jsstring | JArr "json list"
  | JObj "(jsstring \<times> json) list"

text \<open>A value that may be \<open>undefined\<close> is a \<open>json option\<close>; \<open>truthy\<close> is \<open>ToBoolean\<close>.\<close>

fun truthy :: "json option \<Rightarrow> bool" where
  "truthy None = False"
| "truthy (Some JNull) = False"
| "truthy (Some (JBool b)) = b"
| "truthy (Some (JNum NaN)) = False"
| "truthy (Some (JNum (Infinite _))) = True"
| "truthy (Some (JNum (Finite q))) = (q \<noteq> 0)"
| "truthy (Some (JStr s)) = (s \<noteq> [])"
| "truthy (Some (JArr _)) = True"
| "truthy (Some (JObj _)) = True"

text \<open>
  \<open>v.name\<close> on a value that is neither \<open>undefined\<close> nor \<open>null\<close>, for the property
  names this code reads (\<open>choices\<close>, \<open>message\<close>, \<open>content\<close>, \<open>explanation\<close>,
  \<open>themes\<close>, \<open>reason\<close>): an object yields its own property, every other value
  \<open>undefined\<close>.
\<close>

definition getProp :: "json \<Rightarrow> jsstring \<Rightarrow> json option" where
  "getProp v name = (case v of JObj kvs \<Rightarrow> map_of kvs name | _ \<Rightarrow> None)"

text \<open>\<open>v?.name\<close>.\<close>

definition optProp :: "json option \<Rightarrow> jsstring \<Rightarrow> json option" where
  "optProp v name =
     (case v of None \<Rightarrow> None | Some JNull \<Rightarrow> None | Some u \<Rightarrow> getProp u name)"

text \<open>\<open>v[0]\<close> on a value that is neither \<open>undefined\<close> nor \<open>null\<close>.\<close>

definition index0 :: "json \<Rightarrow> json option" where
  "index0 v =
     (case v of
        JArr xs \<Rightarrow> item xs 0
      | JStr s \<Rightarrow> map_option (\<lambda>c. JStr [c]) (item s 0)
      | JObj kvs \<Rightarrow> map_of kvs (lit ''0'')
      | _ \<Rightarrow> None)"

text \<open>
  What a \<open>throw\<close> or a rejected promise carries. A value thrown by the runtime or by
  a library is \<open>foreign\<close>: an instance of \<open>Error\<close> (a \<open>TypeError\<close>, a
  \<open>SyntaxError\<close>, ...) with its message, or some other value. \<open>Error m\<close> is an
  \<open>Error\<close> that the code below constructs itself, with message \<open>m\<close>.
\<close>

datatype foreign = Instance jsstring | NonError

datatype thrown = Error jsstring | Foreign foreign

text \<open>
  Where the runtime throws a \<open>TypeError\<close>: reading the named property of
  \<open>undefined\<close> or of \<open>null\<close> (the two have different messages), or calling the
  named property when it is not a function.
\<close>

datatype nullish = Undefined | Null

datatype site = ReadProperty nullish jsstring | NotAFunction jsstring

section \<open>Data model (types/explanation, and the evaluation types it refers to)\<close>

text \<open>
  The enum \<open>MoveClassification\<close> is declared in types/enums. Its members are the keys
  of \<open>moveClassificationLabels\<close>; their string values are the collaborator
  \<open>classificationText\<close> below. A classification that is present is taken to be
  truthy (no member has the empty string as its value), so that
  \<open>!position.moveClassification\<close> holds exactly of an absent one.
\<close>

datatype MoveClassification =
  Opening | Forced | Splendid | Perfect | Best | Excellent | Okay
  | Inaccuracy | Mistake | Blunder

text \<open>A line is read through the parameter type of \<open>formatEvaluation\<close>.\<close>

record LineEval =
  mate :: "number option"
  cp :: "number option"

text \<open>
  Modelled from the spec: \<open>PositionEval\<close> and \<open>GameEval\<close> are declared in types/eval.
  A position's evaluation is a record with at least a best move, one or more scored
  lines (centipawn or mate-distance score) and the classification of the move that
  led to the position. The fields are the ones this code reads, with the optionality
  its tests on them show (\<open>bestMove || "N/A"\<close>, \<open>!position.moveClassification\<close>,
  \<open>request.opening ? ... : ""\<close>); \<open>opening_p\<close> is the field \<open>opening\<close>.
\<close>

record PositionEval =
  bestMove :: "jsstring option"
  moveClassification :: "MoveClassification option"
  opening_p :: "jsstring option"
  lines :: "LineEval list"

record GameEval =
  positions :: "PositionEval list"

text \<open>
  The records of types/explanation. Field names are global in a theory, so a name
  that two interfaces share has a suffix in all but one: \<open>uciMove_e\<close>,
  \<open>moveNumber_e\<close>, \<open>generatedAt_g\<close>, \<open>version_g\<close>, \<open>opening_r\<close>. Numbers that are
  counts or indices (\<open>moveNumber\<close>, \<open>total\<close>, \<open>completed\<close>) are natural numbers,
  \<open>maxLength\<close>, \<open>gameId\<close> and \<open>status\<close> are integers; the percentages and
  \<open>minEvalChange\<close> are \<open>number\<close>s. The parsed fields of an explanation are
  whatever JSON the reply held.
\<close>

record MoveExplanation =
  move :: "jsstring option"
  uciMove_e :: "jsstring option"
  moveNumber_e :: nat
  explanation :: json
  themes :: json
  classificationReason :: json
  generatedAt :: jsstring
  version :: jsstring

text \<open>
  \<open>fen\<close> and \<open>uciMove\<close> are read from arrays by index, so they may be \<open>undefined\<close>.
\<close>

record ExplanationRequest =
  fen :: "jsstring option"
  uciMove :: "jsstring option"
  moveNumber :: nat
  positionEval :: PositionEval
  previousPositionEval :: "PositionEval option"
  classification :: MoveClassification
  opening_r :: "jsstring option"
  previousWinPercentage :: number
  currentWinPercentage :: number
  isWhiteMove :: bool

record GameExplanations =
  gameId :: int
  explanations :: "nat \<rightharpoonup> MoveExplanation"
  generatedAt_g :: jsstring
  version_g :: jsstring

record BatchExplanationProgress =
  total :: nat
  completed :: nat
  current :: "jsstring option"
  errors :: "jsstring list"

record ExplanationSettings =
  maxLength :: int
  explainExcellent :: bool
  explainOpening :: bool
  minEvalChange :: number

section \<open>Collaborators\<close>

record Response =
  ok :: bool
  status :: int
  statusText :: jsstring
  body :: "foreign + json"

record HistoryMove =
  from_sq :: jsstring
  to_sq :: jsstring
  promotion :: "jsstring option"

text \<open>
  Everything the code calls and does not define is a field of \<open>world\<close>:
  \<^item> \<open>shortest\<close>, \<open>typeErrorMessage\<close>, \<open>jsonParse\<close>: the runtime's number notation, the
    text of its \<open>TypeError\<close>s, and \<open>JSON.parse\<close> (the value, or what it throws);
  \<^item> \<open>clock k\<close>: \<open>new Date().toISOString()\<close> while request \<open>k\<close> is answered, and
    \<open>finalClock\<close> the same when \<open>explainGame\<close> returns;
  \<^item> \<open>fetch k prompt\<close>: the outcome of the POST for request \<open>k\<close>, whose user message
    is \<open>prompt\<close>: a rejection or a response; \<open>body\<close> is what \<open>response.json()\<close>
    settles to;
  \<^item> \<open>finishedAt k\<close>: the time at which the call for request \<open>k\<close> settles;
  \<^item> \<open>classificationText\<close>: the string values of the \<open>MoveClassification\<close> enum;
  \<^item> \<open>getPositionWinPercentage\<close>: the engine helper of that name;
  \<^item> \<open>chessMove fen from to promotion\<close>: \<open>new Chess(fen).move(...)\<close>: it throws, or
    yields no move, or a move with its \<open>san\<close>;
  \<^item> \<open>loadPgn\<close>: \<open>loadPgn\<close> followed by \<open>history({verbose: true})\<close>; \<open>initialFen\<close>:
    \<open>fen()\<close> after \<open>reset()\<close>; \<open>fenAfter ms\<close>: \<open>fen()\<close> once the moves \<open>ms\<close> have
    been played from there, the last of them possibly throwing.
\<close>

record world =
  shortest :: "rat \<Rightarrow> jsstring"
  typeErrorMessage :: "site \<Rightarrow> jsstring"
  jsonParse :: "jsstring \<Rightarrow> foreign + json"
  clock :: "nat \<Rightarrow> jsstring"
  finalClock :: jsstring
  fetch :: "nat \<Rightarrow> jsstring \<Rightarrow> foreign + Response"
  finishedAt :: "nat \<Rightarrow> nat"
  classificationText :: "MoveClassification \<Rightarrow> jsstring"
  getPositionWinPercentage :: "PositionEval \<Rightarrow> foreign + number"
  chessMove ::
    "jsstring option \<Rightarrow> jsstring \<Rightarrow> jsstring \<Rightarrow> jsstring option \<Rightarrow> foreign + jsstring option"
  loadPgn :: "jsstring \<Rightarrow> foreign + HistoryMove list"
  initialFen :: jsstring
  fenAfter :: "HistoryMove list \<Rightarrow> foreign + jsstring"

definition typeError :: "world \<Rightarrow> site \<Rightarrow> thrown" where
  "typeError rt s = Foreign (Instance (typeErrorMessage rt s))"

definition intToString :: "world \<Rightarrow> int \<Rightarrow> jsstring" where
  "intToString rt n = numberToString (shortest rt) (Finite (of_int n))"

text \<open>A string that may be \<open>undefined\<close>, inside a template literal.\<close>

definition textOf :: "jsstring option \<Rightarrow> jsstring" where
  "textOf v = (case v of None \<Rightarrow> lit ''undefined'' | Some s \<Rightarrow> s)"


section \<open>MoveExplainerService\<close>

text \<open>
  The methods take the service's \<open>settings\<close> field as an argument. A service
  constructed without overrides holds \<open>DEFAULT_SETTINGS\<close>.
\<close>

definition DEFAULT_SETTINGS :: ExplanationSettings where
  "DEFAULT_SETTINGS =
     \<lparr> maxLength = 150, explainExcellent = False, explainOpening = False,
       minEvalChange = Finite 5 \<rparr>"

subsection \<open>shouldExplainMove\<close>

definition shouldExplainMove ::
  "ExplanationSettings \<Rightarrow> MoveClassification \<Rightarrow> number \<Rightarrow> bool" where
  "shouldExplainMove settings cls evalChange =
    (if cls \<in> set [Blunder, Mistake, Inaccuracy] then True
     else if cls \<in> set [Perfect, Splendid] then True
     else if cls = Best then True
     else if cls = Excellent \<and> explainExcellent settings then True
     else if cls = Opening \<and> explainOpening settings then True
     else if js_ge (js_abs evalChange) (minEvalChange settings) then True
     else False)"

subsection \<open>formatEvaluation, getClassificationGuidance, buildPrompt\<close>

definition formatEvaluation :: "world \<Rightarrow> LineEval \<Rightarrow> jsstring" where
  "formatEvaluation rt line =
     (case mate line of
        Some m \<Rightarrow> lit ''Mate in '' @ numberToString (shortest rt) (js_abs m)
      | None \<Rightarrow>
          (case cp line of
             Some c \<Rightarrow>
               (let pawns = toFixed1 (shortest rt) (js_div_by c 100)
                in (if js_gt c (Finite 0) then lit ''+'' else []) @ pawns)
           | None \<Rightarrow> lit ''Unknown''))"

fun getClassificationGuidance :: "MoveClassification \<Rightarrow> jsstring" where
  "getClassificationGuidance Blunder =
     lit ''- What tactical or positional mistake was made'' @ newline
     @ lit ''- What the better alternative was''"
| "getClassificationGuidance Mistake =
     lit ''- The inaccuracy in the move'' @ newline @ lit ''- How it worsens the position''"
| "getClassificationGuidance Inaccuracy =
     lit ''- The slight imprecision'' @ newline @ lit ''- What would have been more accurate''"
| "getClassificationGuidance Perfect =
     lit ''- The brilliant tactical or positional concept'' @ newline
     @ lit ''- Why other moves were inadequate''"
| "getClassificationGuidance Splendid =
     lit ''- The brilliant tactical or positional concept'' @ newline
     @ lit ''- Why other moves were inadequate''"
| "getClassificationGuidance Best =
     lit ''- Why this is the engine's top choice'' @ newline
     @ lit ''- The key idea behind the move''"
| "getClassificationGuidance Excellent =
     lit ''- The good aspects of this move'' @ newline @ lit ''- How it improves the position''"
| "getClassificationGuidance _ =
     lit ''- The key aspects of this move'' @ newline @ lit ''- Its effect on the position''"

text \<open>
  \<open>lines[0]\<close> is \<open>undefined\<close> for a position without lines, and \<open>formatEvaluation\<close>
  then throws a \<open>TypeError\<close> at \<open>line.mate\<close>: the only way \<open>buildPrompt\<close> fails.
\<close>

definition buildPrompt ::
  "world \<Rightarrow> ExplanationSettings \<Rightarrow> ExplanationRequest \<Rightarrow> thrown + jsstring" where
  "buildPrompt rt settings request =
     (let evalChange = js_sub (currentWinPercentage request) (previousWinPercentage request);
          evalChangeForPlayer = (if isWhiteMove request then evalChange else js_neg evalChange);
          best = bestMove (positionEval request);
          bestEval = item (lines (positionEval request)) 0;
          playedMove = uciMove request;
          label = classificationText rt (classification request)
      in case bestEval of
           None \<Rightarrow> Inl (typeError rt (ReadProperty Undefined (lit ''mate'')))
         | Some line \<Rightarrow> Inr (
             lit ''Position: '' @ textOf (fen request) @ newline
             @ lit ''Move played: '' @ textOf playedMove @ lit '' (classified as '' @ label
             @ lit '')'' @ newline
             @ (case opening_r request of
                  None \<Rightarrow> []
                | Some name \<Rightarrow> if name = [] then [] else lit ''Opening: '' @ name)
             @ newline @ newline
             @ lit ''Stockfish Analysis:'' @ newline
             @ lit ''- Best move: ''
             @ (case best of
                  None \<Rightarrow> lit ''N/A''
                | Some b \<Rightarrow> if b = [] then lit ''N/A'' else b)
             @ newline
             @ lit ''- Best line evaluation: '' @ formatEvaluation rt line @ newline
             @ lit ''- Win probability changed by ''
             @ toFixed1 (shortest rt) evalChangeForPlayer @ lit ''% for ''
             @ (if isWhiteMove request then lit ''White'' else lit ''Black'')
             @ newline @ newline
             @ lit ''Explain in 1-2 sentences (max '' @ intToString rt (maxLength settings)
             @ lit '' chars) why this move is '' @ label @ lit ''. Focus on:'' @ newline
             @ getClassificationGuidance (classification request) @ newline @ newline
             @ lit ''Format: {'' @ dquote @ lit ''explanation'' @ dquote @ lit '': ''
             @ dquote @ lit ''...'' @ dquote @ lit '', '' @ dquote @ lit ''themes'' @ dquote
             @ lit '': ['' @ dquote @ lit ''theme1'' @ dquote @ lit '', '' @ dquote
             @ lit ''theme2'' @ dquote @ lit ''], '' @ dquote @ lit ''reason'' @ dquote
             @ lit '': '' @ dquote @ lit ''why it's '' @ label @ dquote @ lit ''}''))"

subsection \<open>uciToAlgebraic and parseResponse\<close>

text \<open>
  An \<open>undefined\<close> move makes \<open>uciMove.slice\<close> throw inside the \<open>try\<close>, and the
  handler returns the move as it came.
\<close>

definition uciToAlgebraic ::
  "world \<Rightarrow> jsstring option \<Rightarrow> jsstring option \<Rightarrow> jsstring option" where
  "uciToAlgebraic rt uci position =
     (case uci of
        None \<Rightarrow> None
      | Some u \<Rightarrow>
          (case chessMove rt position (slice u 0 2) (slice u 2 4)
                  (if length u = 5 then Some [u ! 4] else None) of
             Inr (Some san) \<Rightarrow> Some san
           | Inr None \<Rightarrow> Some u
           | Inl _ \<Rightarrow> Some u))"

text \<open>
  \<open>parsed.explanation.slice(0, n)\<close>: reading a property of \<open>null\<close> throws, and so does
  calling \<open>slice\<close> on anything but a string or an array.
\<close>

definition sliceExplanation :: "world \<Rightarrow> json \<Rightarrow> int \<Rightarrow> thrown + json" where
  "sliceExplanation rt parsed n =
     (case parsed of
        JNull \<Rightarrow> Inl (typeError rt (ReadProperty Null (lit ''explanation'')))
      | _ \<Rightarrow>
          (case getProp parsed (lit ''explanation'') of
             Some (JStr s) \<Rightarrow> Inr (JStr (slice s 0 n))
           | Some (JArr xs) \<Rightarrow> Inr (JArr (slice xs 0 n))
           | None \<Rightarrow> Inl (typeError rt (ReadProperty Undefined (lit ''slice'')))
           | Some JNull \<Rightarrow> Inl (typeError rt (ReadProperty Null (lit ''slice'')))
           | Some _ \<Rightarrow> Inl (typeError rt (NotAFunction (lit ''slice'')))))"

text \<open>\<open>a || b\<close> on a property that may be absent.\<close>

definition orElse :: "json option \<Rightarrow> json \<Rightarrow> json" where
  "orElse a b = (case a of Some v \<Rightarrow> if truthy a then v else b | None \<Rightarrow> b)"

text \<open>The body of the \<open>try\<close> block, with what it throws.\<close>

definition parseStructured ::
  "world \<Rightarrow> ExplanationSettings \<Rightarrow> nat \<Rightarrow> jsstring \<Rightarrow> ExplanationRequest
   \<Rightarrow> thrown + MoveExplanation" where
  "parseStructured rt settings k content request =
     (case jsonParse rt content of
        Inl e \<Rightarrow> Inl (Foreign e)
      | Inr parsed \<Rightarrow>
          (case sliceExplanation rt parsed (maxLength settings) of
             Inl e \<Rightarrow> Inl e
           | Inr text \<Rightarrow> Inr
               \<lparr> move = uciToAlgebraic rt (uciMove request) (fen request),
                 uciMove_e = uciMove request,
                 moveNumber_e = moveNumber request,
                 explanation = text,
                 themes = orElse (getProp parsed (lit ''themes'')) (JArr []),
                 classificationReason = orElse (getProp parsed (lit ''reason'')) (JStr []),
                 generatedAt = clock rt k,
                 version = lit ''1.0'' \<rparr>))"

text \<open>The record the \<open>catch\<close> block returns.\<close>

definition fallbackExplanation ::
  "world \<Rightarrow> ExplanationSettings \<Rightarrow> nat \<Rightarrow> jsstring \<Rightarrow> ExplanationRequest
   \<Rightarrow> MoveExplanation" where
  "fallbackExplanation rt settings k content request =
     \<lparr> move = uciToAlgebraic rt (uciMove request) (fen request),
       uciMove_e = uciMove request,
       moveNumber_e = moveNumber request,
       explanation = JStr (slice content 0 (maxLength settings)),
       themes = JArr [],
       classificationReason =
         JStr (lit ''Move classified as '' @ classificationText rt (classification request)),
       generatedAt = clock rt k,
       version = lit ''1.0'' \<rparr>"

definition parseResponse ::
  "world \<Rightarrow> ExplanationSettings \<Rightarrow> nat \<Rightarrow> jsstring \<Rightarrow> ExplanationRequest
   \<Rightarrow> thrown + MoveExplanation" where
  "parseResponse rt settings k content request =
     (case parseStructured rt settings k content request of
        Inr explained \<Rightarrow> Inr explained
      | Inl _ \<Rightarrow> Inr (fallbackExplanation rt settings k content request))"

subsection \<open>explainMove\<close>

text \<open>\<open>data.choices[0]?.message?.content?.trim()\<close>.\<close>

definition readContent :: "world \<Rightarrow> json \<Rightarrow> thrown + jsstring option" where
  "readContent rt data =
     (case data of
        JNull \<Rightarrow> Inl (typeError rt (ReadProperty Null (lit ''choices'')))
      | _ \<Rightarrow>
          (case getProp data (lit ''choices'') of
             None \<Rightarrow> Inl (typeError rt (ReadProperty Undefined (lit ''0'')))
           | Some JNull \<Rightarrow> Inl (typeError rt (ReadProperty Null (lit ''0'')))
           | Some choices \<Rightarrow>
               (case optProp (optProp (index0 choices) (lit ''message'')) (lit ''content'') of
                  None \<Rightarrow> Inr None
                | Some JNull \<Rightarrow> Inr None
                | Some (JStr s) \<Rightarrow> Inr (Some (trim s))
                | Some _ \<Rightarrow> Inl (typeError rt (NotAFunction (lit ''trim''))))))"

definition apiErrorMessage :: "world \<Rightarrow> Response \<Rightarrow> jsstring" where
  "apiErrorMessage rt response =
     lit ''OpenAI API error: '' @ intToString rt (status response) @ lit '' ''
     @ statusText response"

definition noExplanationMessage :: jsstring where
  "noExplanationMessage = lit ''No explanation generated''"

text \<open>
  \<open>explainMove\<close> for the request at index \<open>k\<close> of a batch. The network is an
  effect, so \<open>explainMoveSending\<close> returns, next to the outcome of the promise, the
  requests the call has sent to the endpoint, in order, each identified by the prompt
  in its body: none when \<open>buildPrompt\<close> throws, and otherwise the one call of
  \<open>fetch\<close>, after which nothing is sent whatever the answer is. \<open>explainMove\<close> is
  the outcome and \<open>requestsSent\<close> the log.
\<close>

definition explainMoveSending ::
  "world \<Rightarrow> ExplanationSettings \<Rightarrow> nat \<Rightarrow> ExplanationRequest
   \<Rightarrow> (thrown + MoveExplanation) \<times> jsstring list"
  where
  "explainMoveSending rt settings k request =
     (case buildPrompt rt settings request of
        Inl e \<Rightarrow> (Inl e, [])
      | Inr prompt \<Rightarrow>
          (case fetch rt k prompt of
             Inl e \<Rightarrow> Inl (Foreign e)
           | Inr response \<Rightarrow>
               if \<not> ok response then Inl (Error (apiErrorMessage rt response))
               else
                 (case body response of
                    Inl e \<Rightarrow> Inl (Foreign e)
                  | Inr data \<Rightarrow>
                      (case readContent rt data of
                         Inl e \<Rightarrow> Inl e
                       | Inr content \<Rightarrow>
                           (case content of
                              None \<Rightarrow> Inl (Error noExplanationMessage)
                            | Some c \<Rightarrow>
                                if c = [] then Inl (Error noExplanationMessage)
                                else parseResponse rt settings k c request))),
           [prompt]))"

definition explainMove ::
  "world \<Rightarrow> ExplanationSettings \<Rightarrow> nat \<Rightarrow> ExplanationRequest \<Rightarrow> thrown + MoveExplanation"
  where
  "explainMove rt settings k request = fst (explainMoveSending rt settings k request)"

definition requestsSent ::
  "world \<Rightarrow> ExplanationSettings \<Rightarrow> nat \<Rightarrow> ExplanationRequest \<Rightarrow> jsstring list"
  where
  "requestsSent rt settings k request = snd (explainMoveSending rt settings k request)"


subsection \<open>batchExplainMoves\<close>

text \<open>
  What the run does that a caller can see: each call of \<open>onProgress\<close>, with the
  snapshot it is given and the contents of \<open>results\<close> at that moment, and each pause
  between two batches.
\<close>

datatype event = Progress BatchExplanationProgress "MoveExplanation list" | Delay nat

text \<open>The local variables of \<open>batchExplainMoves\<close>, and the events so far.\<close>

record BatchState =
  results :: "MoveExplanation list"
  errorList :: "jsstring list"
  completedCount :: nat
  events :: "event list"

definition errorMsg :: "world \<Rightarrow> ExplanationRequest \<Rightarrow> thrown \<Rightarrow> jsstring" where
  "errorMsg rt request e =
     lit ''Move '' @ intToString rt (int (moveNumber request)) @ lit '': ''
     @ (case e of
          Error m \<Rightarrow> m
        | Foreign (Instance m) \<Rightarrow> m
        | Foreign NonError \<Rightarrow> lit ''Unknown error'')"

text \<open>
  The calls of one batch, started together: request \<open>i + j\<close> with its outcome.
\<close>

definition settle ::
  "world \<Rightarrow> ExplanationSettings \<Rightarrow> nat \<Rightarrow> ExplanationRequest list
   \<Rightarrow> (nat \<times> ExplanationRequest \<times> (thrown + MoveExplanation)) list" where
  "settle rt settings i batch =
     map (\<lambda>(j, request). (i + j, request, explainMove rt settings (i + j) request))
       (enumerate 0 batch)"

text \<open>
  Each failing call pushes its message onto \<open>errors\<close> when it settles, so the
  messages of one batch arrive in the order of \<open>finishedAt\<close>.
\<close>

definition failed ::
  "world \<Rightarrow> (nat \<times> ExplanationRequest \<times> (thrown + MoveExplanation)) list
   \<Rightarrow> (nat \<times> jsstring) list" where
  "failed rt settled =
     concat (map (\<lambda>(k, request, outcome).
                    case outcome of
                      Inl e \<Rightarrow> [(finishedAt rt k, errorMsg rt request e)]
                    | Inr _ \<Rightarrow> [])
              settled)"

definition caught ::
  "world \<Rightarrow> (nat \<times> ExplanationRequest \<times> (thrown + MoveExplanation)) list \<Rightarrow> jsstring list"
  where
  "caught rt settled = map snd (sort_key fst (failed rt settled))"

text \<open>\<open>batchResults\<close>: in request order, \<open>null\<close> (here \<open>None\<close>) for a failed call.\<close>

definition batchResults ::
  "(nat \<times> ExplanationRequest \<times> (thrown + MoveExplanation)) list \<Rightarrow> MoveExplanation option list"
  where
  "batchResults settled =
     map (\<lambda>(k, request, outcome). case outcome of Inl _ \<Rightarrow> None | Inr x \<Rightarrow> Some x) settled"

text \<open>The loop over \<open>batchResults\<close>; \<open>notify\<close> tells whether \<open>onProgress\<close> was given.\<close>

fun report ::
  "world \<Rightarrow> bool \<Rightarrow> nat \<Rightarrow> MoveExplanation option list \<Rightarrow> BatchState \<Rightarrow> BatchState" where
  "report rt notify n [] st = st"
| "report rt notify n (result # rest) st =
     (let st1 = (case result of
                   Some x \<Rightarrow> st\<lparr>results := results st @ [x]\<rparr>
                 | None \<Rightarrow> st);
          st2 = st1\<lparr>completedCount := completedCount st1 + 1\<rparr>;
          st3 = (if notify
                 then st2\<lparr>events := events st2 @
                        [Progress
                           \<lparr> total = n,
                             completed = completedCount st2,
                             current = map_option
                               (\<lambda>x. lit ''Move '' @ intToString rt (int (moveNumber_e x)))
                               result,
                             errors = errorList st2 \<rparr>
                           (results st2)]\<rparr>
                 else st2)
      in report rt notify n rest st3)"

text \<open>
  One turn of the \<open>for\<close> loop, at index \<open>i\<close>: the batch is started, its failures
  are pushed as they settle, then its results are reported in request order, and a
  pause follows unless this was the last batch.
\<close>

definition batchStep ::
  "world \<Rightarrow> ExplanationSettings \<Rightarrow> ExplanationRequest list \<Rightarrow> bool \<Rightarrow> nat \<Rightarrow> nat
   \<Rightarrow> BatchState \<Rightarrow> BatchState" where
  "batchStep rt settings requests notify concurrency i st =
     (let batch = slice requests (int i) (int (i + concurrency));
          settled = settle rt settings i batch;
          st1 = st\<lparr>errorList := errorList st @ caught rt settled\<rparr>;
          st2 = report rt notify (length requests) (batchResults settled) st1
      in if i + concurrency < length requests
         then st2\<lparr>events := events st2 @ [Delay 100]\<rparr>
         else st2)"

text \<open>
  The \<open>for\<close> loop, from index \<open>i\<close>. With \<open>concurrency = 0\<close> and a request left,
  \<open>i\<close> never advances and the loop does not return: the value \<open>None\<close>.
\<close>

partial_function (option) batchLoop ::
  "world \<Rightarrow> ExplanationSettings \<Rightarrow> ExplanationRequest list \<Rightarrow> bool \<Rightarrow> nat \<Rightarrow> nat
   \<Rightarrow> BatchState \<Rightarrow> BatchState option" where
  "batchLoop rt settings requests notify concurrency i st =
     (if i < length requests
      then batchLoop rt settings requests notify concurrency (i + concurrency)
             (batchStep rt settings requests notify concurrency i st)
      else Some st)"

definition initialState :: BatchState where
  "initialState = \<lparr> results = [], errorList = [], completedCount = 0, events = [] \<rparr>"

text \<open>The returned explanations, with the events of the run.\<close>

definition batchExplainMoves ::
  "world \<Rightarrow> ExplanationSettings \<Rightarrow> ExplanationRequest list \<Rightarrow> bool \<Rightarrow> nat
   \<Rightarrow> (MoveExplanation list \<times> event list) option" where
  "batchExplainMoves rt settings requests notify concurrency =
     map_option (\<lambda>st. (results st, events st))
       (batchLoop rt settings requests notify concurrency 0 initialState)"

section \<open>GameExplanationService\<close>

text \<open>
  Its explainer is constructed without overrides, so every call below runs under
  \<open>DEFAULT_SETTINGS\<close>.
\<close>

subsection \<open>buildExplanationRequests\<close>

text \<open>
  The loop body for each index of \<open>is\<close>; the caller passes the indices
  \<open>1, ..., positions.length - 1\<close>, all in range.
\<close>

primrec buildLoop ::
  "world \<Rightarrow> jsstring list \<Rightarrow> jsstring list \<Rightarrow> PositionEval list \<Rightarrow> nat list
   \<Rightarrow> ExplanationRequest list \<Rightarrow> thrown + ExplanationRequest list" where
  "buildLoop rt fens uciMoves ps [] requests = Inr requests"
| "buildLoop rt fens uciMoves ps (i # is) requests =
     (let position = ps ! i;
          previousPosition = ps ! (i - 1)
      in case moveClassification position of
           None \<Rightarrow> buildLoop rt fens uciMoves ps is requests
         | Some cls \<Rightarrow>
             (case getPositionWinPercentage rt previousPosition of
                Inl e \<Rightarrow> Inl (Foreign e)
              | Inr previousWin \<Rightarrow>
                  (case getPositionWinPercentage rt position of
                     Inl e \<Rightarrow> Inl (Foreign e)
                   | Inr currentWin \<Rightarrow>
                       (let evalChange = js_abs (js_sub currentWin previousWin)
                        in if shouldExplainMove DEFAULT_SETTINGS cls evalChange
                           then buildLoop rt fens uciMoves ps is
                                  (requests @
                                    [\<lparr> fen = item fens (i - 1),
                                       uciMove = item uciMoves (i - 1),
                                       moveNumber = i,
                                       positionEval = position,
                                       previousPositionEval = Some previousPosition,
                                       classification = cls,
                                       opening_r = opening_p position,
                                       previousWinPercentage = previousWin,
                                       currentWinPercentage = currentWin,
                                       isWhiteMove = (i mod 2 = 1) \<rparr>])
                           else buildLoop rt fens uciMoves ps is requests))))"

definition buildExplanationRequests ::
  "world \<Rightarrow> jsstring list \<Rightarrow> jsstring list \<Rightarrow> PositionEval list
   \<Rightarrow> thrown + ExplanationRequest list" where
  "buildExplanationRequests rt fens uciMoves ps =
     buildLoop rt fens uciMoves ps [1..<length ps] []"

subsection \<open>getExplanationStats\<close>

record ExplanationStats =
  totalMoves :: int
  movesToExplain :: nat
  byClassification :: "MoveClassification \<rightharpoonup> nat"

primrec statsLoop ::
  "world \<Rightarrow> PositionEval list \<Rightarrow> nat list \<Rightarrow> ExplanationStats \<Rightarrow> thrown + ExplanationStats"
  where
  "statsLoop rt ps [] stats = Inr stats"
| "statsLoop rt ps (i # is) stats =
     (let position = ps ! i;
          previousPosition = ps ! (i - 1)
      in case moveClassification position of
           None \<Rightarrow> statsLoop rt ps is stats
         | Some cls \<Rightarrow>
             (let stats1 = stats\<lparr>byClassification := (byClassification stats)
                     (cls \<mapsto> (case byClassification stats cls of None \<Rightarrow> 0 | Some c \<Rightarrow> c) + 1)\<rparr>
              in case getPositionWinPercentage rt previousPosition of
                   Inl e \<Rightarrow> Inl (Foreign e)
                 | Inr previousWin \<Rightarrow>
                     (case getPositionWinPercentage rt position of
                        Inl e \<Rightarrow> Inl (Foreign e)
                      | Inr currentWin \<Rightarrow>
                          (let evalChange = js_abs (js_sub currentWin previousWin)
                           in if shouldExplainMove DEFAULT_SETTINGS cls evalChange
                              then statsLoop rt ps is
                                     (stats1\<lparr>movesToExplain := movesToExplain stats1 + 1\<rparr>)
                              else statsLoop rt ps is stats1))))"

definition getExplanationStats :: "world \<Rightarrow> GameEval \<Rightarrow> thrown + ExplanationStats" where
  "getExplanationStats rt gameEval =
     statsLoop rt (positions gameEval) [1..<length (positions gameEval)]
       \<lparr> totalMoves = int (length (positions gameEval)) - 1,
         movesToExplain = 0,
         byClassification = Map.empty \<rparr>"

subsection \<open>explainGame\<close>

text \<open>
  Replaying the history from the initial position: the position after each move, in
  order, or what the first rejected move throws.
\<close>

fun replay :: "world \<Rightarrow> HistoryMove list \<Rightarrow> HistoryMove list \<Rightarrow> foreign + jsstring list" where
  "replay rt played [] = Inr []"
| "replay rt played (m # ms) =
     (case fenAfter rt (played @ [m]) of
        Inl e \<Rightarrow> Inl e
      | Inr f \<Rightarrow>
          (case replay rt (played @ [m]) ms of
             Inl e \<Rightarrow> Inl e
           | Inr fs \<Rightarrow> Inr (f # fs)))"

definition uciOf :: "HistoryMove \<Rightarrow> jsstring" where
  "uciOf m =
     from_sq m @ to_sq m
     @ (case promotion m of None \<Rightarrow> [] | Some p \<Rightarrow> p)"

text \<open>
  The result is \<open>None\<close> when the call never returns, \<open>Some (Inl e)\<close> when it throws
  \<open>e\<close>, and \<open>Some (Inr g)\<close> when it returns \<open>g\<close>.
\<close>

definition explainGame ::
  "world \<Rightarrow> int \<Rightarrow> jsstring \<Rightarrow> GameEval \<Rightarrow> bool \<Rightarrow> (thrown + GameExplanations) option" where
  "explainGame rt game pgn gameEval notify =
     (case loadPgn rt pgn of
        Inl e \<Rightarrow> Some (Inl (Foreign e))
      | Inr history \<Rightarrow>
          (case replay rt [] history of
             Inl e \<Rightarrow> Some (Inl (Foreign e))
           | Inr after \<Rightarrow>
               (let fens = initialFen rt # after;
                    uciMoves = map uciOf history
                in case buildExplanationRequests rt fens uciMoves (positions gameEval) of
                     Inl e \<Rightarrow> Some (Inl e)
                   | Inr requests \<Rightarrow>
                       (case batchExplainMoves rt DEFAULT_SETTINGS requests notify 3 of
                          None \<Rightarrow> None
                        | Some (explained, _) \<Rightarrow>
                            Some (Inr
                              \<lparr> gameId = game,
                                explanations =
                                  foldl (\<lambda>m x. m(moveNumber_e x \<mapsto> x)) Map.empty explained,
                                generatedAt_g = finalClock rt,
                                version_g = lit ''1.0'' \<rparr>)))))"

section \<open>Vocabulary of the properties\<close>

text \<open>The \<open>length\<close> property of a value: strings and arrays have one.\<close>

definition lengthOf :: "json \<Rightarrow> nat option" where
  "lengthOf v = (case v of JStr s \<Rightarrow> Some (length s) | JArr xs \<Rightarrow> Some (length xs) | _ \<Rightarrow> None)"

text \<open>
  The message content of a response body, in the words of the specification: the
  value at \<open>choices[0].message.content\<close>, absent as soon as one step of the path is;
  it is missing or empty when absent, \<open>null\<close> or the empty string.
\<close>

definition spec_messageContent :: "json \<Rightarrow> json option" where
  "spec_messageContent data =
     optProp (optProp (case optProp (Some data) (lit ''choices'') of
                         None \<Rightarrow> None
                       | Some JNull \<Rightarrow> None
                       | Some choices \<Rightarrow> index0 choices)
                (lit ''message''))
       (lit ''content'')"

definition spec_missingOrEmpty :: "json \<Rightarrow> bool" where
  "spec_missingOrEmpty data =
     (spec_messageContent data = None \<or> spec_messageContent data = Some JNull
      \<or> spec_messageContent data = Some (JStr []))"

text \<open>
  A body that has a \<open>choices\<close> (neither absent nor \<open>null\<close>), so that reading
  \<open>data.choices[0]\<close> does not throw; and a body whose content
  \<open>choices[0]?.message?.content\<close> is absent, \<open>null\<close>, or a string with nothing
  but white space.
\<close>

definition hasChoices :: "json \<Rightarrow> bool" where
  "hasChoices data =
     (case getProp data (lit ''choices'') of
        None \<Rightarrow> False
      | Some JNull \<Rightarrow> False
      | Some _ \<Rightarrow> True)"

definition blankContent :: "json \<Rightarrow> bool" where
  "blankContent data =
     (case optProp (optProp (case getProp data (lit ''choices'') of
                               None \<Rightarrow> None
                             | Some choices \<Rightarrow> index0 choices)
                      (lit ''message''))
             (lit ''content'') of
        None \<Rightarrow> True
      | Some JNull \<Rightarrow> True
      | Some (JStr s) \<Rightarrow> trim s = []
      | Some _ \<Rightarrow> False)"

text \<open>
  The calls of \<open>onProgress\<close> among the events, in order, and the kind of an event.
\<close>

fun snapshots :: "event list \<Rightarrow> (BatchExplanationProgress \<times> MoveExplanation list) list" where
  "snapshots [] = []"
| "snapshots (Progress p r # es) = (p, r) # snapshots es"
| "snapshots (Delay _ # es) = snapshots es"

fun isProgress :: "event \<Rightarrow> bool" where
  "isProgress (Progress _ _) = True"
| "isProgress (Delay _) = False"

text \<open>
  The explanations among the results of a batch.
\<close>

definition delivered :: "MoveExplanation option list \<Rightarrow> MoveExplanation list" where
  "delivered rs = concat (map (\<lambda>r. case r of None \<Rightarrow> [] | Some x \<Rightarrow> [x]) rs)"

text \<open>
  A later snapshot extends an earlier one: no fewer completed, and the errors and
  the results of the earlier one are initial segments of the later one's.
\<close>

definition extends ::
  "BatchExplanationProgress \<times> MoveExplanation list
   \<Rightarrow> BatchExplanationProgress \<times> MoveExplanation list \<Rightarrow> bool" where
  "extends a b =
     (completed (fst a) \<le> completed (fst b) \<and> prefix (errors (fst a)) (errors (fst b))
      \<and> prefix (snd a) (snd b))"

text \<open>
  The snapshots taken so far are ordered by \<open>extends\<close>, each with \<open>total = n\<close>,
  and the local variables extend every one of them.
\<close>

definition consistent :: "nat \<Rightarrow> BatchState \<Rightarrow> bool" where
  "consistent n st =
     (sorted_wrt extends (snapshots (events st))
      \<and> list_all (\<lambda>a. total (fst a) = n
                      \<and> extends a (\<lparr> total = n, completed = completedCount st, current = None,
                                       errors = errorList st \<rparr>, results st))
           (snapshots (events st)))"

text \<open>
  Request \<open>k\<close> of a run, as \<open>settle\<close> lists it.
\<close>

definition settled ::
  "world \<Rightarrow> ExplanationSettings \<Rightarrow> ExplanationRequest list \<Rightarrow> nat
   \<Rightarrow> nat \<times> ExplanationRequest \<times> (thrown + MoveExplanation)" where
  "settled rt s reqs k = (k, reqs ! k, explainMove rt s k (reqs ! k))"

text \<open>
  Move \<open>i\<close> passes the filter of the game service: position \<open>i\<close> exists and has
  a classification, both win percentages are there, and the policy accepts the
  classification with the absolute change.
\<close>

definition accepted :: "world \<Rightarrow> PositionEval list \<Rightarrow> nat \<Rightarrow> bool" where
  "accepted rt ps i =
     (1 \<le> i \<and> i < length ps
      \<and> (case moveClassification (ps ! i) of
            None \<Rightarrow> False
          | Some cls \<Rightarrow>
              (case getPositionWinPercentage rt (ps ! (i - 1)) of
                 Inl _ \<Rightarrow> False
               | Inr previousWin \<Rightarrow>
                   (case getPositionWinPercentage rt (ps ! i) of
                      Inl _ \<Rightarrow> False
                    | Inr currentWin \<Rightarrow>
                        shouldExplainMove DEFAULT_SETTINGS cls
                          (js_abs (js_sub currentWin previousWin))))))"

section \<open>Concrete inputs\<close>

text \<open>
  A world for evaluating the definitions: request 4 of a batch is answered with
  status 500, every other request with a one-sentence completion; nothing but
  \<open>null\<close> parses as JSON; the win percentage of a position is the centipawn value of
  its first line; the game has two moves.
\<close>

definition reply :: "json \<Rightarrow> json" where
  "reply content =
     JObj [(lit ''choices'', JArr [JObj [(lit ''message'', JObj [(lit ''content'', content)])]])]"

definition okResponse :: "json \<Rightarrow> Response" where
  "okResponse data = \<lparr> ok = True, status = 200, statusText = lit ''OK'', body = Inr data \<rparr>"

definition demoWorld :: world where
  "demoWorld =
     \<lparr> shortest = (\<lambda>q. lit ''1e+21''),
       typeErrorMessage = (\<lambda>s. lit ''TypeError''),
       jsonParse = (\<lambda>s. if s = lit ''null'' then Inr JNull
                         else Inl (Instance (lit ''SyntaxError''))),
       clock = (\<lambda>k. lit ''2025-01-01T00:00:00.000Z''),
       finalClock = lit ''2025-01-01T00:00:01.000Z'',
       fetch = (\<lambda>k prompt.
                  if k = 4
                  then Inr \<lparr> ok = False, status = 500, statusText = lit ''Server Error'',
                             body = Inr JNull \<rparr>
                  else Inr (okResponse (reply (JStr (lit ''Good developing move.''))))),
       finishedAt = (\<lambda>k. k),
       classificationText = (\<lambda>c. if c = Blunder then lit ''blunder'' else lit ''best''),
       getPositionWinPercentage =
         (\<lambda>p. case item (lines p) 0 of
                  None \<Rightarrow> Inl (Instance (lit ''TypeError''))
                | Some line \<Rightarrow> (case cp line of
                                  Some c \<Rightarrow> Inr c
                                | None \<Rightarrow> Inl (Instance (lit ''No cp or mate in line'')))),
       chessMove = (\<lambda>position a b p. Inr None),
       loadPgn = (\<lambda>pgn. Inr [\<lparr> from_sq = lit ''e2'', to_sq = lit ''e4'', promotion = None \<rparr>,
                               \<lparr> from_sq = lit ''e7'', to_sq = lit ''e5'', promotion = None \<rparr>]),
       initialFen = lit ''start'',
       fenAfter = (\<lambda>ms. Inr (lit ''later'')) \<rparr>"

definition demoPosition :: "MoveClassification option \<Rightarrow> rat \<Rightarrow> PositionEval" where
  "demoPosition c w =
     \<lparr> bestMove = Some (lit ''e2e4''), moveClassification = c, opening_p = None,
       lines = [\<lparr> mate = None, cp = Some (Finite w) \<rparr>] \<rparr>"

definition demoRequest :: "nat \<Rightarrow> ExplanationRequest" where
  "demoRequest n =
     \<lparr> fen = Some (lit ''start''), uciMove = Some (lit ''e2e4''), moveNumber = n,
       positionEval = demoPosition (Some Blunder) 20,
       previousPositionEval = Some (demoPosition None 50),
       classification = Blunder, opening_r = None,
       previousWinPercentage = Finite 50, currentWinPercentage = Finite 20,
       isWhiteMove = (n mod 2 = 1) \<rparr>"

text \<open>The same world, with every request answered by status 200 and the given body.\<close>

definition silentWorld :: "json \<Rightarrow> world" where
  "silentWorld data = demoWorld\<lparr>fetch := (\<lambda>k prompt. Inr (okResponse data))\<rparr>"

text \<open>
  A game of three positions: the first move is a blunder, the second is not classified.
\<close>

definition demoGame :: GameEval where
  "demoGame =
     \<lparr> positions = [demoPosition None 50, demoPosition (Some Blunder) 20,
                     demoPosition None 21] \<rparr>"

section \<open>Strings and numbers\<close>

lemma unat_of_char_word: "unat (of_char c :: 16 word) = of_char c"
proof -
  have "(of_char c :: 16 word) = of_nat (of_char c)" by (simp add: of_nat_of_char)
  moreover have "(of_char c :: nat) < 2 ^ 16"
    by (rule less_trans [OF nat_of_char_less_256]) simp
  ultimately show ?thesis by (simp add: unat_of_nat)
qed

lemma inj_of_char_word: "inj (of_char :: char \<Rightarrow> 16 word)"
proof (rule injI)
  fix x y :: char
  assume "(of_char x :: 16 word) = of_char y"
  then have "unat (of_char x :: 16 word) = unat (of_char y :: 16 word)" by simp
  then show "x = y" by (simp add: unat_of_char_word)
qed

lemma lit_eq_iff: "(lit a = lit b) = (a = b)"
  by (simp add: lit_def inj_map_eq_map [OF inj_of_char_word])

lemma slice_from_start: "0 \<le> n \<Longrightarrow> slice xs 0 n = take (nat n) xs"
  by (simp add: slice_def Let_def min_def) 

lemma length_slice_le: "0 \<le> n \<Longrightarrow> int (length (slice xs 0 n)) \<le> n"
  by (simp add: slice_from_start)

lemma demoWorld_fields:
  "shortest demoWorld = (\<lambda>q. lit ''1e+21'')"
  "typeErrorMessage demoWorld = (\<lambda>s. lit ''TypeError'')"
  "jsonParse demoWorld = (\<lambda>s. if s = lit ''null'' then Inr JNull
                         else Inl (Instance (lit ''SyntaxError'')))"
  "fetch demoWorld = (\<lambda>k prompt.
                  if k = 4
                  then Inr \<lparr> ok = False, status = 500, statusText = lit ''Server Error'',
                             body = Inr JNull \<rparr>
                  else Inr (okResponse (reply (JStr (lit ''Good developing move.'')))))"
  "finishedAt demoWorld = (\<lambda>k. k)"
  "classificationText demoWorld = (\<lambda>c. if c = Blunder then lit ''blunder'' else lit ''best'')"
  "chessMove demoWorld = (\<lambda>position a b p. Inr None)"
  by (simp_all add: demoWorld_def)

lemma silentWorld_fields:
  "typeErrorMessage (silentWorld d) = typeErrorMessage demoWorld"
  "fetch (silentWorld d) = (\<lambda>k prompt. Inr (okResponse d))"
  by (simp_all add: silentWorld_def)

lemma demoWorld_game_fields:
  "getPositionWinPercentage demoWorld =
         (\<lambda>p. case item (lines p) 0 of
                  None \<Rightarrow> Inl (Instance (lit ''TypeError''))
                | Some line \<Rightarrow> (case cp line of
                                  Some c \<Rightarrow> Inr c
                                | None \<Rightarrow> Inl (Instance (lit ''No cp or mate in line''))))"
  "loadPgn demoWorld = (\<lambda>pgn. Inr [\<lparr> from_sq = lit ''e2'', to_sq = lit ''e4'', promotion = None \<rparr>,
                               \<lparr> from_sq = lit ''e7'', to_sq = lit ''e5'', promotion = None \<rparr>])"
  "initialFen demoWorld = lit ''start''"
  "fenAfter demoWorld = (\<lambda>ms. Inr (lit ''later''))"
  by (simp_all add: demoWorld_def)

subsection \<open>The binary64 rounding\<close>

text \<open>
  \<open>ilog2\<close> is the binary exponent of a positive rational, \<open>roundHalfEven\<close> is within
  one half of its argument, and \<open>fl64\<close> agrees with the IEEE 754 doubles at a few
  landmarks (\<open>1.5\<close> is exact, \<open>0.1\<close> and \<open>-0.4\<close> are not).
\<close>

lemma bits_bounds: "0 < n \<Longrightarrow> 2 ^ (bits n - 1) \<le> n \<and> n < 2 ^ bits n"
proof (induction n rule: bits.induct)
  case (1 n)
  from "1.prems" have n0: "n \<noteq> 0" by simp
  have b: "bits n = Suc (bits (n div 2))" using n0 by (subst bits.simps) simp
  show ?case
  proof (cases "n div 2 = 0")
    case True
    with "1.prems" have "n = 1" by (simp add: div_eq_0_iff)
    moreover have "bits 0 = 0" by (subst bits.simps) simp
    ultimately show ?thesis using b by simp
  next
    case False
    then have pos: "0 < n div 2" by simp
    from "1.IH" [OF n0 pos]
    have IH: "2 ^ (bits (n div 2) - 1) \<le> n div 2" "n div 2 < 2 ^ bits (n div 2)"
      by simp_all
    have bpos: "0 < bits (n div 2)" using pos by (subst bits.simps) simp
    then have "(2::nat) ^ bits (n div 2) = 2 * 2 ^ (bits (n div 2) - 1)"
      by (cases "bits (n div 2)") simp_all
    with IH show ?thesis unfolding b by simp linarith
  qed
qed

lemma pow2_powi: "pow2 k = 2 powi k"
  unfolding pow2_def power_int_def by (simp add: inverse_eq_divide power_one_over)

lemma pow2_pos: "0 < pow2 k"
  by (simp add: pow2_powi)

lemma pow2_Suc: "pow2 (k + 1) = 2 * pow2 k"
  by (simp add: pow2_powi power_int_add)

lemma floor_bits:
  fixes t :: rat
  assumes "1 \<le> t"
  shows "2 ^ (bits (nat \<lfloor>t\<rfloor>) - 1) \<le> t \<and> t < 2 ^ bits (nat \<lfloor>t\<rfloor>)"
proof -
  define n where "n = nat \<lfloor>t\<rfloor>"
  from assms have f1: "1 \<le> \<lfloor>t\<rfloor>" by simp
  then have n: "0 < n" "of_nat n \<le> t" "t < of_nat n + 1"
    unfolding n_def by (simp_all add: floor_less_cancel) (linarith+)?
  from bits_bounds [OF n(1)] have "2 ^ (bits n - 1) \<le> n" "n + 1 \<le> 2 ^ bits n" by simp_all
  then have "(2 :: rat) ^ (bits n - 1) \<le> of_nat n" "(of_nat n :: rat) + 1 \<le> 2 ^ bits n"
    by (metis of_nat_le_iff of_nat_numeral of_nat_power, metis of_nat_1 of_nat_add of_nat_le_iff of_nat_numeral of_nat_power)
  with n show ?thesis unfolding n_def by linarith
qed

lemma ilog2_bounds:
  assumes "0 < q"
  shows "pow2 (ilog2 q) \<le> q \<and> q < pow2 (ilog2 q + 1)"
proof (cases "1 \<le> q")
  case True
  define b where "b = bits (nat \<lfloor>q\<rfloor>)"
  from floor_bits [OF True] have fb: "2 ^ (b - 1) \<le> q" "q < 2 ^ b"
    by (simp_all add: b_def)
  from fb(2) True have "0 < b" by (cases b) simp_all
  then have "ilog2 q = int (b - 1)" "ilog2 q + 1 = int b"
    using True by (simp_all add: ilog2_def b_def)
  then have "pow2 (ilog2 q) = 2 ^ (b - 1)" "pow2 (ilog2 q + 1) = 2 ^ b"
    by (simp_all only: pow2_powi power_int_of_nat)
  with fb show ?thesis by simp
next
  case False
  define b where "b = bits (nat \<lfloor>1 / q\<rfloor>)"
  from False assms have "1 \<le> 1 / q" by simp
  from floor_bits [OF this] have fb: "2 ^ (b - 1) \<le> 1 / q" "1 / q < 2 ^ b"
    by (simp_all add: b_def)
  from fb(2) \<open>1 \<le> 1 / q\<close> have bpos: "0 < b" by (cases b) simp_all
  from fb assms have lo: "pow2 (- int b) < q" and hi: "q \<le> pow2 (- int (b - 1))"
    by (simp_all add: pow2_powi power_int_minus field_simps)
  have nxt: "pow2 (- int b + 1) = pow2 (- int (b - 1))"
    using bpos by (simp add: of_nat_diff)
  have inv: "pow2 (int b - 1) * pow2 (- int (b - 1)) = 1"
    using bpos by (simp add: pow2_powi of_nat_diff flip: power_int_add)
  show ?thesis
  proof (cases "q * pow2 (int b - 1) = 1")
    case True
    then have e: "ilog2 q = - int (b - 1)"
      using False bpos by (simp add: ilog2_def b_def Let_def of_nat_diff)
    have "q = q * (pow2 (int b - 1) * pow2 (- int (b - 1)))"
      by (simp only: inv mult_1_right)
    also have "\<dots> = (q * pow2 (int b - 1)) * pow2 (- int (b - 1))"
      by (simp only: mult.assoc)
    finally have "q = pow2 (- int (b - 1))"
      by (simp only: True mult_1_left)
    then show ?thesis unfolding e using assms pow2_Suc [of "- int (b - 1)"] by simp
  next
    case neq: False
    then have e: "ilog2 q = - int b"
      using False by (simp add: ilog2_def b_def Let_def)
    from neq inv have "q \<noteq> pow2 (- int (b - 1))"
      by (auto simp add: mult.commute)
    with hi lo show ?thesis unfolding e nxt by simp
  qed
qed

lemma roundHalfEven_nearest: "\<bar>y - of_int (roundHalfEven y)\<bar> \<le> 1 / 2"
proof -
  define f where "f = \<lfloor>y\<rfloor>"
  have "of_int f \<le> y" "y < of_int f + 1"
    unfolding f_def by linarith+
  then show ?thesis
    unfolding roundHalfEven_def Let_def f_def [symmetric] by auto
qed

lemma fl64_landmarks:
  "fl64 0 = Finite 0"
  "fl64 (3 / 2) = Finite (3 / 2)"
  "fl64 (1 / 10) = Finite (3602879701896397 / 36028797018963968)"
  "fl64 (- 2 / 5) = Finite (- (3602879701896397 / 9007199254740992))"
  by code_simp+

section \<open>The explanation policy\<close>

lemma js_ge_abs_self: "js_eq d m \<Longrightarrow> js_ge (js_abs d) m"
  by (induction d m rule: js_ge.induct) auto

lemma js_lt_not_ge: "js_lt a b \<Longrightarrow> \<not> js_ge a b"
  by (induction a b rule: js_ge.induct) auto

text \<open>
  C4. Blunder, Mistake, Inaccuracy, Perfect, Splendid and Best are explained whatever
  the settings and whatever the evaluation change.
\<close>

theorem shouldExplainMove_always:
  "shouldExplainMove settings Blunder evalChange
   \<and> shouldExplainMove settings Mistake evalChange
   \<and> shouldExplainMove settings Inaccuracy evalChange
   \<and> shouldExplainMove settings Perfect evalChange
   \<and> shouldExplainMove settings Splendid evalChange
   \<and> shouldExplainMove settings Best evalChange"
  by (simp add: shouldExplainMove_def)

text \<open>
  C3, as stated, fails: under the default settings both flags are off, and yet an
  Excellent move and an Opening move are explained when the evaluation changes by ten
  points, because a rejected flag rule falls through to the threshold rule.
\<close>

theorem shouldExplainMove_flag_counterexample:
  "shouldExplainMove DEFAULT_SETTINGS Excellent (Finite 10)
   \<and> \<not> explainExcellent DEFAULT_SETTINGS
   \<and> shouldExplainMove DEFAULT_SETTINGS Opening (Finite (- 10))
   \<and> \<not> explainOpening DEFAULT_SETTINGS"
  by (simp add: shouldExplainMove_def DEFAULT_SETTINGS_def)

text \<open>
  C3, amended. An Excellent move is explained exactly when \<open>explainExcellent\<close> is
  on or the absolute evaluation change reaches \<open>minEvalChange\<close>; an Opening move
  exactly when \<open>explainOpening\<close> is on or the change reaches the threshold.
\<close>

theorem shouldExplainMove_flag_or_threshold:
  "shouldExplainMove settings Excellent evalChange
     = (explainExcellent settings \<or> js_ge (js_abs evalChange) (minEvalChange settings))
   \<and> shouldExplainMove settings Opening evalChange
     = (explainOpening settings \<or> js_ge (js_abs evalChange) (minEvalChange settings))"
  by (simp add: shouldExplainMove_def)

text \<open>
  C5. With \<open>explainExcellent\<close> off, an Excellent move is skipped below the
  threshold and explained from the threshold on; with the flag on it is always
  explained; and the comparison is inclusive: a change equal to \<open>minEvalChange\<close> is
  explained for every classification, Okay among them.
\<close>

theorem shouldExplainMove_threshold:
  "(\<not> explainExcellent settings \<and> js_lt (js_abs evalChange) (minEvalChange settings)
      \<longrightarrow> \<not> shouldExplainMove settings Excellent evalChange)
   \<and> (\<not> explainExcellent settings \<and> js_ge (js_abs evalChange) (minEvalChange settings)
      \<longrightarrow> shouldExplainMove settings Excellent evalChange)
   \<and> (explainExcellent settings \<longrightarrow> shouldExplainMove settings Excellent evalChange)
   \<and> (js_eq evalChange (minEvalChange settings) \<longrightarrow> shouldExplainMove settings cls evalChange)"
  by (auto simp: shouldExplainMove_def js_ge_abs_self dest: js_lt_not_ge)

text \<open>
  The hypotheses of C5 at the default settings: changes of 3, -7 and 5 points, and the
  flag switched on.
\<close>

theorem shouldExplainMove_threshold_witness:
  "\<not> explainExcellent DEFAULT_SETTINGS
   \<and> js_lt (js_abs (Finite 3)) (minEvalChange DEFAULT_SETTINGS)
   \<and> \<not> shouldExplainMove DEFAULT_SETTINGS Excellent (Finite 3)
   \<and> js_ge (js_abs (Finite (- 7))) (minEvalChange DEFAULT_SETTINGS)
   \<and> shouldExplainMove DEFAULT_SETTINGS Excellent (Finite (- 7))
   \<and> explainExcellent (DEFAULT_SETTINGS\<lparr>explainExcellent := True\<rparr>)
   \<and> shouldExplainMove (DEFAULT_SETTINGS\<lparr>explainExcellent := True\<rparr>) Excellent (Finite 0)
   \<and> js_eq (Finite 5) (minEvalChange DEFAULT_SETTINGS)
   \<and> shouldExplainMove DEFAULT_SETTINGS Okay (Finite 5)"
  using shouldExplainMove_threshold [of DEFAULT_SETTINGS "Finite 3" Okay]
    shouldExplainMove_threshold [of DEFAULT_SETTINGS "Finite (- 7)" Okay]
    shouldExplainMove_threshold [of "DEFAULT_SETTINGS\<lparr>explainExcellent := True\<rparr>" "Finite 0" Okay]
    shouldExplainMove_threshold [of DEFAULT_SETTINGS "Finite 5" Okay]
  by (simp add: DEFAULT_SETTINGS_def)

section \<open>Formatting an evaluation\<close>

lemma decimal_small: "n < 10 \<Longrightarrow> decimal n = [digit n]"
  by (subst decimal.simps) simp

lemma decimal_step: "10 \<le> n \<Longrightarrow> decimal n = decimal (n div 10) @ [digit (n mod 10)]"
  by (subst decimal.simps) simp

lemma decimal_nonempty: "decimal n \<noteq> []"
  by (cases "n < 10") (simp_all add: decimal_small decimal_step)

lemma lit_append: "lit (a @ b) = lit a @ lit b"
  by (simp add: lit_def)

lemma numberToString_int:
  assumes "\<bar>N\<bar> < 10 ^ 21"
  shows "numberToString sh (Finite (of_int N)) =
           (if N < 0 then lit ''-'' else []) @ decimal (nat \<bar>N\<bar>)"
proof -
  have "\<bar>(of_int N :: rat)\<bar> < 10 ^ 21"
    using assms by (metis of_int_abs of_int_less_iff of_int_numeral of_int_power)
  then show ?thesis by simp
qed

lemma nearest_tenth:
  fixes y :: rat
  assumes "0 \<le> y"
  shows "\<bar>of_nat (nat \<lfloor>10 * y + 1 / 2\<rfloor>) / 10 - y\<bar> \<le> 1 / 20"
proof -
  define f where "f = \<lfloor>10 * y + 1 / 2\<rfloor>"
  define r :: rat where "r = of_int f"
  have nonneg: "0 \<le> f" using assms by (simp add: f_def)
  have lo: "r \<le> 10 * y + 1 / 2" unfolding r_def f_def by (rule of_int_floor_le)
  have hi: "10 * y + 1 / 2 < r + 1"
    unfolding r_def f_def using floor_correct [of "10 * y + 1 / 2"] by simp
  have "(of_nat (nat f) :: rat) = r" using nonneg by (simp add: r_def)
  moreover have "\<bar>r / 10 - y\<bar> \<le> 1 / 20" using lo hi by linarith
  ultimately show ?thesis by (simp add: f_def)
qed

lemma toFixed1_digits:
  assumes "\<bar>q\<bar> < 10 ^ 21"
  shows "toFixed1 sh (Finite q) =
           (if q < 0 then lit ''-'' else [])
           @ decimal (nat \<lfloor>10 * \<bar>q\<bar> + 1 / 2\<rfloor> div 10) @ lit ''.''
           @ [digit (nat \<lfloor>10 * \<bar>q\<bar> + 1 / 2\<rfloor> mod 10)]"
proof -
  define n where "n = nat \<lfloor>10 * \<bar>q\<bar> + 1 / 2\<rfloor>"
  have split: "butlast (if length (decimal n) \<le> 1
                        then replicate (2 - length (decimal n)) (digit 0) @ decimal n
                        else decimal n) = decimal (n div 10)
      \<and> last (if length (decimal n) \<le> 1
               then replicate (2 - length (decimal n)) (digit 0) @ decimal n
               else decimal n) = digit (n mod 10)"
  proof (cases "n < 10")
    case True
    then show ?thesis by (simp add: decimal_small)
  next
    case False
    then have "decimal n = decimal (n div 10) @ [digit (n mod 10)]"
      by (simp add: decimal_step)
    moreover have "1 \<le> length (decimal (n div 10))"
      using decimal_nonempty [of "n div 10"] by (cases "decimal (n div 10)") simp_all
    ultimately show ?thesis using decimal_nonempty [of "n div 10"] by simp
  qed
  show ?thesis
    using assms split
    by (simp add: toFixed1_def Let_def n_def [symmetric] del: One_nat_def)
qed

text \<open>
  C8. A line with a mate distance is written "Mate in" followed by the absolute
  distance (in decimal digits for an integer distance); otherwise a line with
  centipawns is written as \<open>cp / 100\<close> to one decimal place, led by "+" when \<open>cp\<close>
  is positive, where one decimal place means the digits of the tenth nearest to the
  magnitude, with "-" in front of a negative value; a line with neither is "Unknown".
  So \<open>{mate: 3}\<close> gives "Mate in 3", \<open>{cp: 150}\<close> gives "+1.5" and
  \<open>{cp: -40}\<close> gives "-0.4".
\<close>

theorem formatEvaluation_renders:
  "(mate line = Some m \<longrightarrow>
      formatEvaluation rt line = lit ''Mate in '' @ numberToString (shortest rt) (js_abs m))
   \<and> (mate line = Some (Finite (of_int N)) \<and> \<bar>N\<bar> < 10 ^ 21 \<longrightarrow>
      formatEvaluation rt line = lit ''Mate in '' @ decimal (nat \<bar>N\<bar>))
   \<and> (mate line = None \<and> cp line = Some c \<longrightarrow>
      formatEvaluation rt line =
        (if js_gt c (Finite 0) then lit ''+'' else []) @ toFixed1 (shortest rt) (js_div_by c 100))
   \<and> (\<bar>x\<bar> < 10 ^ 21 \<longrightarrow>
      (\<exists>n. toFixed1 (shortest rt) (Finite x) =
             (if x < 0 then lit ''-'' else []) @ decimal (n div 10) @ lit ''.''
             @ [digit (n mod 10)]
           \<and> \<bar>of_nat n / 10 - \<bar>x\<bar>\<bar> \<le> 1 / 20))
   \<and> (mate line = None \<and> cp line = None \<longrightarrow> formatEvaluation rt line = lit ''Unknown'')
   \<and> formatEvaluation rt \<lparr>mate = Some (Finite 3), cp = None\<rparr> = lit ''Mate in 3''
   \<and> formatEvaluation rt \<lparr>mate = None, cp = Some (Finite 150)\<rparr> = lit ''+1.5''
   \<and> formatEvaluation rt \<lparr>mate = None, cp = Some (Finite (- 40))\<rparr> = lit ''-0.4''"
proof (intro conjI impI)
  assume "mate line = Some m"
  then show "formatEvaluation rt line = lit ''Mate in '' @ numberToString (shortest rt) (js_abs m)"
    by (simp add: formatEvaluation_def)
next
  assume a: "mate line = Some (Finite (of_int N)) \<and> \<bar>N\<bar> < 10 ^ 21"
  then show "formatEvaluation rt line = lit ''Mate in '' @ decimal (nat \<bar>N\<bar>)"
    by (simp add: formatEvaluation_def numberToString_int [of "\<bar>N\<bar>"] flip: of_int_abs)
next
  assume "mate line = None \<and> cp line = Some c"
  then show "formatEvaluation rt line =
        (if js_gt c (Finite 0) then lit ''+'' else []) @ toFixed1 (shortest rt) (js_div_by c 100)"
    by (simp add: formatEvaluation_def)
next
  assume "\<bar>x\<bar> < 10 ^ 21"
  then show "\<exists>n. toFixed1 (shortest rt) (Finite x) =
             (if x < 0 then lit ''-'' else []) @ decimal (n div 10) @ lit ''.''
             @ [digit (n mod 10)]
           \<and> \<bar>of_nat n / 10 - \<bar>x\<bar>\<bar> \<le> 1 / 20"
    using toFixed1_digits [of x "shortest rt"] nearest_tenth [of "\<bar>x\<bar>"] by auto
next
  assume "mate line = None \<and> cp line = None"
  then show "formatEvaluation rt line = lit ''Unknown''"
    by (simp add: formatEvaluation_def)
next
  show "formatEvaluation rt \<lparr>mate = Some (Finite 3), cp = None\<rparr> = lit ''Mate in 3''"
    by (simp add: formatEvaluation_def decimal_small lit_def digit_def)
next
  have "fl64 (150 / 100) = Finite (3 / 2)" "\<lfloor>(31 :: rat) / 2\<rfloor> = 15" by code_simp+
  then show "formatEvaluation rt \<lparr>mate = None, cp = Some (Finite 150)\<rparr> = lit ''+1.5''"
    by (simp add: formatEvaluation_def js_gt_def toFixed1_digits decimal_small decimal_step
        lit_def digit_def)
next
  have "fl64 (- 40 / 100) = Finite (- 3602879701896397 / 9007199254740992)" by code_simp
  moreover have "\<lfloor>10 * \<bar>- 3602879701896397 / 9007199254740992 :: rat\<bar> + 1 / 2\<rfloor> = 4"
    by code_simp
  moreover have "\<bar>- 3602879701896397 / 9007199254740992 :: rat\<bar> < 10 ^ 21" by simp
  ultimately show "formatEvaluation rt \<lparr>mate = None, cp = Some (Finite (- 40))\<rparr> = lit ''-0.4''"
    by (simp add: formatEvaluation_def js_gt_def toFixed1_digits decimal_small decimal_step
        lit_def digit_def)
qed

text \<open>
  The hypotheses of C8 on three lines: mate in -7 (with centipawns that are ignored),
  centipawns that are not a number, and an empty line; and the value 0.25, a tie that
  goes to the larger tenth.
\<close>

theorem formatEvaluation_renders_witness:
  "\<forall>rt.
     mate \<lparr>mate = Some (Finite (of_int (- 7))), cp = Some (Finite 20)\<rparr> = Some (Finite (of_int (- 7)))
     \<and> \<bar>- 7 :: int\<bar> < 10 ^ 21
     \<and> formatEvaluation rt \<lparr>mate = Some (Finite (of_int (- 7))), cp = Some (Finite 20)\<rparr>
         = lit ''Mate in 7''
     \<and> mate \<lparr>mate = None, cp = Some NaN\<rparr> = None
     \<and> cp \<lparr>mate = None, cp = Some NaN\<rparr> = Some NaN
     \<and> formatEvaluation rt \<lparr>mate = None, cp = Some NaN\<rparr> = lit ''NaN''
     \<and> \<bar>1 / 4 :: rat\<bar> < 10 ^ 21
     \<and> toFixed1 (shortest rt) (Finite (1 / 4)) = lit ''0.3''
     \<and> cp \<lparr>mate = None, cp = None\<rparr> = None
     \<and> formatEvaluation rt \<lparr>mate = None, cp = None\<rparr> = lit ''Unknown''"
proof
  fix rt :: world
  have "\<lfloor>10 * \<bar>1 / 4 :: rat\<bar> + 1 / 2\<rfloor> = 3" by code_simp
  then have "toFixed1 (shortest rt) (Finite (1 / 4)) = lit ''0.3''"
    by (simp add: toFixed1_digits decimal_small lit_def digit_def)
  then show "mate \<lparr>mate = Some (Finite (of_int (- 7))), cp = Some (Finite 20)\<rparr> = Some (Finite (of_int (- 7)))
     \<and> \<bar>- 7 :: int\<bar> < 10 ^ 21
     \<and> formatEvaluation rt \<lparr>mate = Some (Finite (of_int (- 7))), cp = Some (Finite 20)\<rparr>
         = lit ''Mate in 7''
     \<and> mate \<lparr>mate = None, cp = Some NaN\<rparr> = None
     \<and> cp \<lparr>mate = None, cp = Some NaN\<rparr> = Some NaN
     \<and> formatEvaluation rt \<lparr>mate = None, cp = Some NaN\<rparr> = lit ''NaN''
     \<and> \<bar>1 / 4 :: rat\<bar> < 10 ^ 21
     \<and> toFixed1 (shortest rt) (Finite (1 / 4)) = lit ''0.3''
     \<and> cp \<lparr>mate = None, cp = None\<rparr> = None
     \<and> formatEvaluation rt \<lparr>mate = None, cp = None\<rparr> = lit ''Unknown''"
    using formatEvaluation_renders
        [of "\<lparr>mate = Some (Finite (of_int (- 7))), cp = Some (Finite 20)\<rparr>"
            "Finite (of_int (- 7))" rt "- 7" NaN "1 / 4"]
      formatEvaluation_renders [of "\<lparr>mate = None, cp = Some NaN\<rparr>" NaN rt 0 NaN 0]
      formatEvaluation_renders [of "\<lparr>mate = None, cp = None\<rparr>" NaN rt 0 NaN 0]
    by (simp add: decimal_small lit_def digit_def js_gt_def toFixed1_def)
qed

section \<open>Parsing a reply\<close>

lemma parseResponse_Inr:
  "\<exists>x. parseResponse rt settings k content request = Inr x"
  by (simp add: parseResponse_def split: sum.splits)

lemma sliceExplanation_length:
  assumes "0 \<le> n" "sliceExplanation rt parsed n = Inr v"
  shows "\<exists>m. lengthOf v = Some m \<and> int m \<le> n"
  using assms
  by (auto simp: sliceExplanation_def lengthOf_def length_slice_le
      split: json.splits option.splits)

lemma sliceExplanation_needs_field:
  assumes "sliceExplanation rt parsed n = Inr v"
  shows "\<exists>kvs u. parsed = JObj kvs \<and> map_of kvs (lit ''explanation'') = Some u"
  using assms
  by (auto simp: sliceExplanation_def getProp_def split: json.splits option.splits)

text \<open>
  C6, as stated, fails for a negative \<open>maxLength\<close>, which the constructor accepts:
  \<open>slice(0, -3)\<close> drops the last three code units, so the reply "Good developing
  move." comes back with 18 code units, which is more than \<open>maxLength\<close>.
\<close>

theorem parseResponse_negative_maxLength_counterexample:
  "parseResponse demoWorld (DEFAULT_SETTINGS\<lparr>maxLength := - 3\<rparr>) 0
       (lit ''Good developing move.'') (demoRequest 2)
     = Inr \<lparr> move = Some (lit ''e2e4''), uciMove_e = Some (lit ''e2e4''), moveNumber_e = 2,
             explanation = JStr (lit ''Good developing mo''), themes = JArr [],
             classificationReason = JStr (lit ''Move classified as blunder''),
             generatedAt = lit ''2025-01-01T00:00:00.000Z'', version = lit ''1.0'' \<rparr>
   \<and> lengthOf (JStr (lit ''Good developing mo'')) = Some 18
   \<and> \<not> int 18 \<le> maxLength (DEFAULT_SETTINGS\<lparr>maxLength := - 3\<rparr>)"
proof -
  have "parseStructured demoWorld (DEFAULT_SETTINGS\<lparr>maxLength := - 3\<rparr>) 0
          (lit ''Good developing move.'') (demoRequest 2)
          = Inl (Foreign (Instance (lit ''SyntaxError'')))"
    by (simp add: parseStructured_def demoWorld_def lit_eq_iff)
  moreover have "slice (lit ''Good developing move.'') 0 (- 3) = lit ''Good developing mo''"
    by (simp add: slice_def lit_def)
  moreover have "uciToAlgebraic demoWorld (Some (lit ''e2e4'')) (Some (lit ''start''))
                   = Some (lit ''e2e4'')"
    by (simp add: uciToAlgebraic_def demoWorld_def)
  moreover have "clock demoWorld 0 = lit ''2025-01-01T00:00:00.000Z''"
    by (simp add: demoWorld_def)
  ultimately show ?thesis
    by (simp add: parseResponse_def fallbackExplanation_def demoRequest_def demoWorld_fields
        DEFAULT_SETTINGS_def lengthOf_def lit_def)
qed

text \<open>
  C6, amended: the two statements on the length are for a non-negative \<open>maxLength\<close>.
  \<open>parseResponse\<close> always returns a record. When the reply does not parse as
  an object with an \<open>explanation\<close> property, the record is the fallback: no themes,
  a rationale that names the request's classification and, for a non-negative
  \<open>maxLength\<close>, the raw reply cut to \<open>maxLength\<close> code units. Whichever path is
  taken, for a non-negative \<open>maxLength\<close> the returned explanation has a length, and
  it is at most \<open>maxLength\<close>.
\<close>

theorem parseResponse_fallback:
  "(\<exists>x. parseResponse rt settings k content request = Inr x)
   \<and> (\<not> (\<exists>kvs u. jsonParse rt content = Inr (JObj kvs)
                  \<and> map_of kvs (lit ''explanation'') = Some u)
      \<longrightarrow> parseResponse rt settings k content request
            = Inr (fallbackExplanation rt settings k content request))
   \<and> themes (fallbackExplanation rt settings k content request) = JArr []
   \<and> classificationReason (fallbackExplanation rt settings k content request)
       = JStr (lit ''Move classified as '' @ classificationText rt (classification request))
   \<and> (0 \<le> maxLength settings
      \<longrightarrow> explanation (fallbackExplanation rt settings k content request)
            = JStr (take (nat (maxLength settings)) content))
   \<and> (0 \<le> maxLength settings
      \<longrightarrow> (\<forall>x. parseResponse rt settings k content request = Inr x
            \<longrightarrow> (\<exists>n. lengthOf (explanation x) = Some n \<and> int n \<le> maxLength settings)))"
proof (intro conjI impI allI)
  show "\<exists>x. parseResponse rt settings k content request = Inr x"
    by (rule parseResponse_Inr)
next
  assume miss: "\<not> (\<exists>kvs u. jsonParse rt content = Inr (JObj kvs)
                  \<and> map_of kvs (lit ''explanation'') = Some u)"
  have "\<exists>e. parseStructured rt settings k content request = Inl e"
  proof (cases "jsonParse rt content")
    case (Inl e)
    then show ?thesis by (simp add: parseStructured_def)
  next
    case (Inr parsed)
    with miss have "\<not> (\<exists>v. sliceExplanation rt parsed (maxLength settings) = Inr v)"
      using sliceExplanation_needs_field by blast
    with Inr show ?thesis
      by (cases "sliceExplanation rt parsed (maxLength settings)")
        (simp_all add: parseStructured_def)
  qed
  then show "parseResponse rt settings k content request
            = Inr (fallbackExplanation rt settings k content request)"
    by (auto simp: parseResponse_def)
next
  show "themes (fallbackExplanation rt settings k content request) = JArr []"
    by (simp add: fallbackExplanation_def)
next
  show "classificationReason (fallbackExplanation rt settings k content request)
       = JStr (lit ''Move classified as '' @ classificationText rt (classification request))"
    by (simp add: fallbackExplanation_def)
next
  assume "0 \<le> maxLength settings"
  then show "explanation (fallbackExplanation rt settings k content request)
            = JStr (take (nat (maxLength settings)) content)"
    by (simp add: fallbackExplanation_def slice_from_start)
next
  fix x
  assume nonneg: "0 \<le> maxLength settings"
    and res: "parseResponse rt settings k content request = Inr x"
  show "\<exists>n. lengthOf (explanation x) = Some n \<and> int n \<le> maxLength settings"
  proof (cases "parseStructured rt settings k content request")
    case (Inl e)
    with res have "x = fallbackExplanation rt settings k content request"
      by (simp add: parseResponse_def)
    with nonneg show ?thesis
      by (simp add: fallbackExplanation_def lengthOf_def slice_from_start)
  next
    case (Inr y)
    with res have xy: "x = y" by (simp add: parseResponse_def)
    from Inr obtain parsed v where
      "sliceExplanation rt parsed (maxLength settings) = Inr v" "explanation y = v"
      by (auto simp: parseStructured_def split: sum.splits)
    with nonneg xy show ?thesis using sliceExplanation_length by blast
  qed
qed

text \<open>
  The hypotheses of C6 on the reply "Good developing move." under the default
  settings: it is not JSON, and the fallback keeps all 21 code units.
\<close>

theorem parseResponse_fallback_witness:
  "\<not> (\<exists>kvs u. jsonParse demoWorld (lit ''Good developing move.'') = Inr (JObj kvs)
               \<and> map_of kvs (lit ''explanation'') = Some u)
   \<and> 0 \<le> maxLength DEFAULT_SETTINGS
   \<and> (\<exists>x. parseResponse demoWorld DEFAULT_SETTINGS 0 (lit ''Good developing move.'')
              (demoRequest 1) = Inr x
          \<and> explanation x = JStr (lit ''Good developing move.'')
          \<and> themes x = JArr []
          \<and> classificationReason x = JStr (lit ''Move classified as blunder'')
          \<and> lengthOf (explanation x) = Some 21)"
proof -
  let ?c = "lit ''Good developing move.''"
  let ?f = "fallbackExplanation demoWorld DEFAULT_SETTINGS 0 ?c (demoRequest 1)"
  have nofield: "\<not> (\<exists>kvs u. jsonParse demoWorld ?c = Inr (JObj kvs)
               \<and> map_of kvs (lit ''explanation'') = Some u)"
    by (simp add: demoWorld_def lit_eq_iff)
  have nonneg: "0 \<le> maxLength DEFAULT_SETTINGS"
    by (simp add: DEFAULT_SETTINGS_def)
  note spec = parseResponse_fallback [of demoWorld DEFAULT_SETTINGS 0 ?c "demoRequest 1"]
  from spec nofield have res: "parseResponse demoWorld DEFAULT_SETTINGS 0 ?c (demoRequest 1) = Inr ?f"
    by blast
  from spec nonneg have "explanation ?f = JStr (take (nat (maxLength DEFAULT_SETTINGS)) ?c)"
    by blast
  then have expl: "explanation ?f = JStr ?c"
    by (simp add: DEFAULT_SETTINGS_def lit_def)
  from spec have th: "themes ?f = JArr []" by blast
  from spec have "classificationReason ?f
       = JStr (lit ''Move classified as ''
               @ classificationText demoWorld (classification (demoRequest 1)))"
    by blast
  then have reason: "classificationReason ?f = JStr (lit ''Move classified as blunder'')"
    by (simp add: demoWorld_def demoRequest_def lit_def)
  have len: "lengthOf (explanation ?f) = Some 21"
    unfolding expl by (simp add: lengthOf_def lit_def)
  show ?thesis
    using nofield nonneg res expl th reason len by blast
qed

section \<open>Failures of explainMove\<close>

lemma explainMove_unfold:
  "explainMove rt settings k request =
     (case buildPrompt rt settings request of
        Inl e \<Rightarrow> Inl e
      | Inr prompt \<Rightarrow>
          (case fetch rt k prompt of
             Inl e \<Rightarrow> Inl (Foreign e)
           | Inr response \<Rightarrow>
               if \<not> ok response then Inl (Error (apiErrorMessage rt response))
               else
                 (case body response of
                    Inl e \<Rightarrow> Inl (Foreign e)
                  | Inr data \<Rightarrow>
                      (case readContent rt data of
                         Inl e \<Rightarrow> Inl e
                       | Inr content \<Rightarrow>
                           (case content of
                              None \<Rightarrow> Inl (Error noExplanationMessage)
                            | Some c \<Rightarrow>
                                if c = [] then Inl (Error noExplanationMessage)
                                else parseResponse rt settings k c request)))))"
  by (simp add: explainMove_def explainMoveSending_def split: sum.splits)

lemma requestsSent_at_most_one: "length (requestsSent rt settings k request) \<le> 1"
  by (simp add: requestsSent_def explainMoveSending_def split: sum.splits)

lemma api_not_empty_message: "apiErrorMessage rt response \<noteq> noExplanationMessage"
  by (simp add: apiErrorMessage_def noExplanationMessage_def lit_def)

lemma parseResponse_not_Inl: "parseResponse rt settings k c request \<noteq> Inl e"
  using parseResponse_Inr [of rt settings k c request] by auto

lemma readContent_empty:
  "hasChoices data
   \<Longrightarrow> (readContent rt data = Inr None \<or> readContent rt data = Inr (Some []))
       = blankContent data"
  by (cases data)
    (auto simp: readContent_def hasChoices_def blankContent_def getProp_def
      split: option.splits json.splits)

lemma readContent_Inl_foreign:
  "readContent rt data = Inl e \<Longrightarrow> \<exists>m. e = Foreign m"
  by (auto simp: readContent_def typeError_def split: option.splits json.splits)

lemma buildPrompt_Inr:
  "lines (positionEval request) \<noteq> [] \<Longrightarrow> \<exists>p. buildPrompt rt settings request = Inr p"
  by (cases "lines (positionEval request)") (simp_all add: buildPrompt_def item_def Let_def)

lemma demoRequest_prompt: "\<exists>p. buildPrompt rt settings (demoRequest n) = Inr p"
  by (rule buildPrompt_Inr) (simp add: demoRequest_def demoPosition_def)

lemma decimal_500: "decimal 500 = lit ''500''"
  by (simp add: decimal_step decimal_small digit_def lit_def)

text \<open>
  C7, as stated, fails in both directions. A successful response whose body is the
  empty object carries no message content, and \<open>explainMove\<close> fails with the
  runtime's \<open>TypeError\<close> for reading \<open>choices[0]\<close>, not with "No explanation
  generated"; and a content of one blank is neither missing nor empty, and
  \<open>explainMove\<close> fails with "No explanation generated", because the content is
  trimmed before it is tested.
\<close>

theorem explainMove_empty_response_counterexample:
  "ok (okResponse (JObj []))
   \<and> body (okResponse (JObj [])) = Inr (JObj [])
   \<and> spec_missingOrEmpty (JObj [])
   \<and> explainMove (silentWorld (JObj [])) DEFAULT_SETTINGS 0 (demoRequest 2)
       = Inl (Foreign (Instance (lit ''TypeError'')))
   \<and> spec_messageContent (reply (JStr (lit '' ''))) = Some (JStr (lit '' ''))
   \<and> explainMove (silentWorld (reply (JStr (lit '' '')))) DEFAULT_SETTINGS 0 (demoRequest 2)
       = Inl (Error noExplanationMessage)"
proof -
  obtain p where p: "buildPrompt (silentWorld (JObj [])) DEFAULT_SETTINGS (demoRequest 2) = Inr p"
    using demoRequest_prompt by blast
  obtain q where q: "buildPrompt (silentWorld (reply (JStr (lit '' '')))) DEFAULT_SETTINGS
                       (demoRequest 2) = Inr q"
    using demoRequest_prompt by blast
  have 1: "explainMove (silentWorld (JObj [])) DEFAULT_SETTINGS 0 (demoRequest 2)
       = Inl (Foreign (Instance (lit ''TypeError'')))"
    by (simp add: explainMove_unfold p silentWorld_fields demoWorld_fields okResponse_def
        readContent_def getProp_def typeError_def)
  have 2: "explainMove (silentWorld (reply (JStr (lit '' '')))) DEFAULT_SETTINGS 0 (demoRequest 2)
       = Inl (Error noExplanationMessage)"
  proof -
    have "readContent (silentWorld (reply (JStr (lit '' '')))) (reply (JStr (lit '' '')))
            = Inr (Some [])"
      by (simp add: readContent_def getProp_def optProp_def index0_def item_def reply_def
          trim_def isWhiteSpace_def lit_def)
    then show ?thesis
      by (simp add: explainMove_unfold q silentWorld_fields okResponse_def)
  qed
  have 3: "spec_missingOrEmpty (JObj [])"
    by (simp add: spec_missingOrEmpty_def spec_messageContent_def optProp_def getProp_def)
  have 4: "spec_messageContent (reply (JStr (lit '' ''))) = Some (JStr (lit '' ''))"
    by (simp add: spec_messageContent_def optProp_def getProp_def index0_def item_def reply_def
        lit_def)
  show ?thesis using 1 2 3 4 by (simp add: okResponse_def)
qed

text \<open>
  C7, amended. Once the prompt is built, \<open>explainMove\<close> sends exactly one request
  to the endpoint, whatever the answer: nothing is retried. When that request is
  answered by a response, \<open>explainMove\<close> fails with "OpenAI API error: status
  statusText" exactly when the response is not \<open>ok\<close>; it fails with "No explanation
  generated" only when the response is \<open>ok\<close>, and, for an \<open>ok\<close> response whose
  body is JSON and has a \<open>choices\<close>, exactly when
  \<open>choices[0]?.message?.content\<close> is absent, \<open>null\<close> or a string that is empty
  once trimmed. Both failures are the outcome of \<open>explainMove\<close> itself, so they
  reach the caller. Nothing is said of a body without \<open>choices\<close>.
\<close>

theorem explainMove_failures:
  assumes "buildPrompt rt settings request = Inr prompt"
  shows "requestsSent rt settings k request = [prompt]
       \<and> (\<forall>response. fetch rt k prompt = Inr response \<longrightarrow>
            ((explainMove rt settings k request = Inl (Error (apiErrorMessage rt response)))
               = (\<not> ok response))
            \<and> (explainMove rt settings k request = Inl (Error noExplanationMessage)
                 \<longrightarrow> ok response)
            \<and> (\<forall>data. ok response \<and> body response = Inr data \<and> hasChoices data
                 \<longrightarrow> (explainMove rt settings k request = Inl (Error noExplanationMessage))
                       = blankContent data))"
proof (intro conjI allI impI)
  show "requestsSent rt settings k request = [prompt]"
    using assms by (simp add: requestsSent_def explainMoveSending_def)
next
  fix response
  assume f: "fetch rt k prompt = Inr response"
  show "(explainMove rt settings k request = Inl (Error (apiErrorMessage rt response)))
          = (\<not> ok response)"
  proof (cases "ok response")
    case False
    with assms f show ?thesis by (simp add: explainMove_unfold)
  next
    case True
    have "explainMove rt settings k request \<noteq> Inl (Error (apiErrorMessage rt response))"
    proof (cases "body response")
      case (Inl e)
      with assms f True show ?thesis by (simp add: explainMove_unfold)
    next
      case (Inr data)
      with assms f True readContent_Inl_foreign [of rt data] show ?thesis
        by (auto simp: explainMove_unfold api_not_empty_message [THEN not_sym]
            parseResponse_not_Inl split: sum.splits option.splits)
    qed
    with True show ?thesis by simp
  qed
next
  fix response
  assume f: "fetch rt k prompt = Inr response"
    and "explainMove rt settings k request = Inl (Error noExplanationMessage)"
  with assms show "ok response"
    by (cases "ok response") (simp_all add: explainMove_unfold api_not_empty_message)
next
  fix response data
  assume f: "fetch rt k prompt = Inr response"
    and d: "ok response \<and> body response = Inr data \<and> hasChoices data"
  have "(explainMove rt settings k request = Inl (Error noExplanationMessage))
          = (readContent rt data = Inr None \<or> readContent rt data = Inr (Some []))"
    using assms f d readContent_Inl_foreign [of rt data]
    by (auto simp: explainMove_unfold parseResponse_not_Inl split: sum.splits option.splits)
  with d show "(explainMove rt settings k request = Inl (Error noExplanationMessage))
                 = blankContent data"
    by (simp add: readContent_empty)
qed

text \<open>
  The hypotheses of C7 on two concrete requests: request 4 of the concrete world,
  answered with status 500, and a request answered with status 200 and a content of
  one blank. Each is sent once.
\<close>

theorem explainMove_failures_witness:
  "(\<exists>prompt.
      buildPrompt demoWorld DEFAULT_SETTINGS (demoRequest 5) = Inr prompt
      \<and> fetch demoWorld 4 prompt
          = Inr \<lparr> ok = False, status = 500, statusText = lit ''Server Error'',
                   body = Inr JNull \<rparr>
      \<and> explainMove demoWorld DEFAULT_SETTINGS 4 (demoRequest 5)
          = Inl (Error (lit ''OpenAI API error: 500 Server Error''))
      \<and> requestsSent demoWorld DEFAULT_SETTINGS 4 (demoRequest 5) = [prompt])
   \<and> (\<exists>prompt.
      buildPrompt (silentWorld (reply (JStr (lit '' '')))) DEFAULT_SETTINGS (demoRequest 2)
        = Inr prompt
      \<and> fetch (silentWorld (reply (JStr (lit '' '')))) 0 prompt
          = Inr (okResponse (reply (JStr (lit '' ''))))
      \<and> ok (okResponse (reply (JStr (lit '' ''))))
      \<and> body (okResponse (reply (JStr (lit '' '')))) = Inr (reply (JStr (lit '' '')))
      \<and> hasChoices (reply (JStr (lit '' '')))
      \<and> blankContent (reply (JStr (lit '' '')))
      \<and> explainMove (silentWorld (reply (JStr (lit '' '')))) DEFAULT_SETTINGS 0 (demoRequest 2)
          = Inl (Error noExplanationMessage)
      \<and> requestsSent (silentWorld (reply (JStr (lit '' '')))) DEFAULT_SETTINGS 0 (demoRequest 2)
          = [prompt])"
proof (intro conjI)
  obtain p where p: "buildPrompt demoWorld DEFAULT_SETTINGS (demoRequest 5) = Inr p"
    using demoRequest_prompt by blast
  define r where "r = \<lparr> ok = False, status = 500, statusText = lit ''Server Error'',
                             body = Inr JNull \<rparr>"
  have f: "fetch demoWorld 4 p = Inr r" by (simp add: demoWorld_fields r_def)
  have msg: "apiErrorMessage demoWorld r = lit ''OpenAI API error: 500 Server Error''"
    using numberToString_int [of 500 "shortest demoWorld"]
    by (simp add: apiErrorMessage_def intToString_def r_def decimal_500 flip: lit_append)
  have nok: "\<not> ok r" by (simp add: r_def)
  from explainMove_failures [OF p, of 4] f nok msg
  have "explainMove demoWorld DEFAULT_SETTINGS 4 (demoRequest 5)
          = Inl (Error (lit ''OpenAI API error: 500 Server Error''))"
    and "requestsSent demoWorld DEFAULT_SETTINGS 4 (demoRequest 5) = [p]"
    by auto
  with p f show "\<exists>prompt.
      buildPrompt demoWorld DEFAULT_SETTINGS (demoRequest 5) = Inr prompt
      \<and> fetch demoWorld 4 prompt
          = Inr \<lparr> ok = False, status = 500, statusText = lit ''Server Error'',
                   body = Inr JNull \<rparr>
      \<and> explainMove demoWorld DEFAULT_SETTINGS 4 (demoRequest 5)
          = Inl (Error (lit ''OpenAI API error: 500 Server Error''))
      \<and> requestsSent demoWorld DEFAULT_SETTINGS 4 (demoRequest 5) = [prompt]"
    unfolding r_def by blast
next
  define d where "d = reply (JStr (lit '' ''))"
  obtain q where q: "buildPrompt (silentWorld d) DEFAULT_SETTINGS (demoRequest 2) = Inr q"
    using demoRequest_prompt by blast
  have f: "fetch (silentWorld d) 0 q = Inr (okResponse d)"
    by (simp add: silentWorld_fields)
  have o: "ok (okResponse d)" and b: "body (okResponse d) = Inr d"
    by (simp_all add: okResponse_def)
  have h: "hasChoices d"
    by (simp add: hasChoices_def getProp_def d_def reply_def)
  have e: "blankContent d"
    by (simp add: blankContent_def getProp_def optProp_def index0_def item_def d_def reply_def
        trim_def isWhiteSpace_def lit_def)
  from explainMove_failures [OF q, of 0] f o b h e
  have "explainMove (silentWorld d) DEFAULT_SETTINGS 0 (demoRequest 2)
          = Inl (Error noExplanationMessage)"
    and "requestsSent (silentWorld d) DEFAULT_SETTINGS 0 (demoRequest 2) = [q]"
    by auto
  with q f o b h e show "\<exists>prompt.
      buildPrompt (silentWorld (reply (JStr (lit '' '')))) DEFAULT_SETTINGS (demoRequest 2)
        = Inr prompt
      \<and> fetch (silentWorld (reply (JStr (lit '' '')))) 0 prompt
          = Inr (okResponse (reply (JStr (lit '' ''))))
      \<and> ok (okResponse (reply (JStr (lit '' ''))))
      \<and> body (okResponse (reply (JStr (lit '' '')))) = Inr (reply (JStr (lit '' '')))
      \<and> hasChoices (reply (JStr (lit '' '')))
      \<and> blankContent (reply (JStr (lit '' '')))
      \<and> explainMove (silentWorld (reply (JStr (lit '' '')))) DEFAULT_SETTINGS 0 (demoRequest 2)
          = Inl (Error noExplanationMessage)
      \<and> requestsSent (silentWorld (reply (JStr (lit '' '')))) DEFAULT_SETTINGS 0 (demoRequest 2)
          = [prompt]"
    unfolding d_def by blast
qed

subsection \<open>In the concrete world\<close>

lemma explainMove_demo_fails:
  "explainMove demoWorld s 4 (demoRequest n)
     = Inl (Error (lit ''OpenAI API error: 500 Server Error''))"
proof -
  obtain p where p: "buildPrompt demoWorld s (demoRequest n) = Inr p"
    using demoRequest_prompt by blast
  show ?thesis
    using numberToString_int [of 500 "shortest demoWorld"]
    by (simp add: explainMove_unfold p demoWorld_fields(4) apiErrorMessage_def intToString_def
        decimal_500 flip: lit_append)
qed

lemma explainMove_demo_answers:
  assumes "k \<noteq> 4" "lines (positionEval r) \<noteq> []"
  shows "\<exists>x. explainMove demoWorld s k r = Inr x"
proof -
  obtain p where p: "buildPrompt demoWorld s r = Inr p"
    using buildPrompt_Inr [OF assms(2)] by blast
  have "readContent demoWorld (reply (JStr (lit ''Good developing move.'')))
          = Inr (Some (lit ''Good developing move.''))"
    by (simp add: readContent_def getProp_def optProp_def index0_def item_def reply_def
        trim_def isWhiteSpace_def lit_def)
  moreover have "lit ''Good developing move.'' \<noteq> []"
    by (simp add: lit_def)
  ultimately show ?thesis
    using assms(1) parseResponse_Inr
    by (simp add: explainMove_unfold p demoWorld_fields(4) okResponse_def)
qed

lemma explainMove_demo_succeeds:
  assumes "k \<noteq> 4"
  shows "\<exists>x. explainMove demoWorld s k (demoRequest n) = Inr x"
  using assms by (rule explainMove_demo_answers) (simp add: demoRequest_def demoPosition_def)

lemma parseResponse_moveNumber:
  "parseResponse rt s k c r = Inr x \<Longrightarrow> moveNumber_e x = moveNumber r"
  by (auto simp: parseResponse_def parseStructured_def fallbackExplanation_def
      split: sum.splits)

lemma explainMove_moveNumber:
  "explainMove rt s k r = Inr x \<Longrightarrow> moveNumber_e x = moveNumber r"
  by (auto simp: explainMove_unfold parseResponse_moveNumber split: sum.splits option.splits if_splits)

section \<open>The batch dispatcher\<close>

subsection \<open>The loop over one batch\<close>

lemma snapshots_append: "snapshots (xs @ ys) = snapshots xs @ snapshots ys"
  by (induction xs rule: snapshots.induct) simp_all

lemma delivered_simps [simp]:
  "delivered [] = []"
  "delivered (None # rs) = delivered rs"
  "delivered (Some x # rs) = x # delivered rs"
  "delivered (rs @ ts) = delivered rs @ delivered ts"
  by (simp_all add: delivered_def)

lemma report_fields:
  "results (report rt notify n rs st) = results st @ delivered rs"
  "errorList (report rt notify n rs st) = errorList st"
  "completedCount (report rt notify n rs st) = completedCount st + length rs"
  by (induction rs arbitrary: st; simp add: Let_def split: option.splits)+

lemma report_silent: "events (report rt False n rs st) = events st"
  by (induction rs arbitrary: st) (simp_all add: Let_def split: option.splits)

lemma report_kinds:
  "map isProgress (events (report rt True n rs st))
     = map isProgress (events st) @ replicate (length rs) True"
  by (induction rs arbitrary: st)
    (simp_all add: Let_def replicate_append_same split: option.splits)

lemma report_count:
  "length (snapshots (events (report rt True n rs st)))
     = length (snapshots (events st)) + length rs"
  by (induction rs arbitrary: st)
    (simp_all add: Let_def snapshots_append split: option.splits)

lemma report_last:
  "rs \<noteq> [] \<Longrightarrow>
   last (snapshots (events (report rt True n rs st)))
     = (\<lparr> total = n, completed = completedCount st + length rs,
          current = map_option (\<lambda>x. lit ''Move '' @ intToString rt (int (moveNumber_e x)))
                      (last rs),
          errors = errorList st \<rparr>,
        results st @ delivered rs)"
proof (induction rs arbitrary: st)
  case Nil
  then show ?case by simp
next
  case (Cons r rs)
  show ?case
  proof (cases "rs = []")
    case True
    then show ?thesis
      by (simp add: Let_def snapshots_append split: option.splits)
  next
    case False
    then show ?thesis
      using Cons.IH [OF False]
      by (simp add: Let_def split: option.splits)
  qed
qed

lemma consistent_grow:
  assumes "consistent n st"
    and "completedCount st \<le> completedCount st'"
    and "prefix (errorList st) (errorList st')"
    and "prefix (results st) (results st')"
    and "events st' = events st"
  shows "consistent n st'"
  using assms
  by (auto simp: consistent_def list_all_iff extends_def intro: prefix_order.trans)

lemma consistent_snapshot:
  assumes "consistent n st"
  shows "consistent n
           (st\<lparr>events := events st @
               [Progress \<lparr> total = n, completed = completedCount st, current = c,
                            errors = errorList st \<rparr> (results st)]\<rparr>)"
  using assms
  by (auto simp: consistent_def list_all_iff snapshots_append sorted_wrt_append extends_def)

lemma consistent_delay:
  "consistent n st \<Longrightarrow> consistent n (st\<lparr>events := events st @ [Delay d]\<rparr>)"
  by (simp add: consistent_def snapshots_append)

lemma report_consistent:
  "consistent n st \<Longrightarrow> consistent n (report rt notify n rs st)"
proof (induction rs arbitrary: st)
  case Nil
  then show ?case by simp
next
  case (Cons r rs)
  define st2 where
    "st2 = (case r of Some x \<Rightarrow> st\<lparr>results := results st @ [x]\<rparr> | None \<Rightarrow> st)
             \<lparr>completedCount := Suc (completedCount st)\<rparr>"
  have "consistent n st2"
    using Cons.prems
    by (rule consistent_grow) (simp_all add: st2_def split: option.splits)
  then have "consistent n
               (if notify
                then st2\<lparr>events := events st2 @
                       [Progress \<lparr> total = n, completed = completedCount st2,
                          current = map_option
                            (\<lambda>x. lit ''Move '' @ intToString rt (int (moveNumber_e x))) r,
                          errors = errorList st2 \<rparr> (results st2)]\<rparr>
                else st2)"
    using consistent_snapshot by simp
  then have "consistent n (report rt notify n rs
               (if notify
                then st2\<lparr>events := events st2 @
                       [Progress \<lparr> total = n, completed = completedCount st2,
                          current = map_option
                            (\<lambda>x. lit ''Move '' @ intToString rt (int (moveNumber_e x))) r,
                          errors = errorList st2 \<rparr> (results st2)]\<rparr>
                else st2))"
    by (rule Cons.IH)
  then show ?case
    by (cases r; cases notify) (simp_all add: Let_def st2_def)
qed

subsection \<open>One turn of the loop\<close>

lemma slice_window: "slice xs (int i) (int (i + c)) = take c (drop i xs)"
  by (cases "i \<le> length xs") (simp_all add: slice_def Let_def min_def)

lemma settle_window:
  "settle rt s i (take c (drop i reqs))
     = map (\<lambda>k. (k, reqs ! k, explainMove rt s k (reqs ! k))) [i..<min (i + c) (length reqs)]"
proof (rule nth_equalityI)
  show "length (settle rt s i (take c (drop i reqs)))
          = length (map (\<lambda>k. (k, reqs ! k, explainMove rt s k (reqs ! k)))
                      [i..<min (i + c) (length reqs)])"
    by (simp add: settle_def)
next
  fix t
  assume "t < length (settle rt s i (take c (drop i reqs)))"
  then have t: "t < c" "i + t < length reqs"
    by (auto simp: settle_def)
  then have "take c (drop i reqs) ! t = reqs ! (i + t)"
    by simp
  moreover from t have "[i..<min (i + c) (length reqs)] ! t = i + t"
    by simp
  ultimately show "settle rt s i (take c (drop i reqs)) ! t
          = map (\<lambda>k. (k, reqs ! k, explainMove rt s k (reqs ! k)))
              [i..<min (i + c) (length reqs)] ! t"
    using t by (simp add: settle_def enumerate_eq_zip)
qed

lemma batchResults_length [simp]: "length (batchResults xs) = length xs"
  by (simp add: batchResults_def)

lemma settle_length [simp]: "length (settle rt s i xs) = length xs"
  by (simp add: settle_def)

lemma batchStep_fields:
  "results (batchStep rt s reqs notify c i st)
     = results st @ delivered (batchResults (settle rt s i (take c (drop i reqs))))"
  "errorList (batchStep rt s reqs notify c i st)
     = errorList st @ caught rt (settle rt s i (take c (drop i reqs)))"
  "completedCount (batchStep rt s reqs notify c i st)
     = completedCount st + min c (length reqs - i)"
  by (simp_all add: batchStep_def Let_def slice_window report_fields del: of_nat_add)

lemma batchStep_consistent:
  assumes "consistent (length reqs) st"
  shows "consistent (length reqs) (batchStep rt s reqs notify c i st)"
proof -
  let ?st1 = "st\<lparr>errorList := errorList st
                  @ caught rt (settle rt s i (slice reqs (int i) (int (i + c))))\<rparr>"
  have "consistent (length reqs) ?st1"
    using assms by (rule consistent_grow) simp_all
  then have "consistent (length reqs)
               (report rt notify (length reqs)
                  (batchResults (settle rt s i (slice reqs (int i) (int (i + c))))) ?st1)"
    by (rule report_consistent)
  then show ?thesis
    by (simp add: batchStep_def Let_def consistent_delay)
qed

lemma batchStep_kinds:
  "map isProgress (events (batchStep rt s reqs True c i st))
     = map isProgress (events st) @ replicate (min c (length reqs - i)) True
       @ (if i + c < length reqs then [False] else [])"
proof -
  define st2 where
    "st2 = report rt True (length reqs) (batchResults (settle rt s i (take c (drop i reqs))))
             (st\<lparr>errorList := errorList st
                  @ caught rt (settle rt s i (take c (drop i reqs)))\<rparr>)"
  have shape: "batchStep rt s reqs True c i st
                 = (if i + c < length reqs
                    then st2\<lparr>events := events st2 @ [Delay 100]\<rparr>
                    else st2)"
    unfolding st2_def batchStep_def Let_def slice_window by (rule refl)
  have "map isProgress (events st2)
          = map isProgress (events st) @ replicate (min c (length reqs - i)) True"
    by (simp add: st2_def report_kinds min.commute)
  then show ?thesis by (simp add: shape)
qed

lemma settle_settled:
  "settle rt s i (take c (drop i reqs)) = map (settled rt s reqs) [i..<min (i + c) (length reqs)]"
  by (simp add: settle_window settled_def)

lemma failed_append: "failed rt (xs @ ys) = failed rt xs @ failed rt ys"
  by (simp add: failed_def)

lemma batchResults_append: "batchResults (xs @ ys) = batchResults xs @ batchResults ys"
  by (simp add: batchResults_def)

lemma mset_caught: "mset (caught rt xs) = mset (map snd (failed rt xs))"
  by (simp add: caught_def)

lemma upt_window:
  assumes "i < n"
  shows "[0..<min i n] @ [i..<min (i + c) n] = [0..<min (i + c) n]"
proof -
  obtain d where d: "min (i + c) n = i + d"
    using assms by (metis le_add1 le_iff_add min.boundedI less_imp_le)
  show ?thesis
    using assms upt_add_eq_append [of 0 i d] by (simp add: d)
qed

subsection \<open>The loop\<close>

text \<open>
  Partial correctness of the loop: what holds at the start and is kept by every turn
  holds of the state the loop returns, at an index past the last request.
\<close>

lemma batchLoop_invariant:
  assumes run: "batchLoop rt s reqs notify c i st = Some y"
    and init: "I i st"
    and step: "\<And>i st. I i st \<Longrightarrow> i < length reqs
                 \<Longrightarrow> I (i + c) (batchStep rt s reqs notify c i st)"
  shows "\<exists>j. length reqs \<le> j \<and> I j y"
proof -
  let ?P = "\<lambda>rt' s' reqs' notify' c' i' st' y'.
              rt' = rt \<and> s' = s \<and> reqs' = reqs \<and> notify' = notify \<and> c' = c \<longrightarrow> I i' st'
              \<longrightarrow> (\<exists>j. length reqs \<le> j \<and> I j y')"
  have "?P rt s reqs notify c i st y"
  proof (rule batchLoop.raw_induct [where P = ?P, OF _ run])
    fix loop rt' s' reqs' notify' c' i' st' y'
    assume IH: "\<And>rt' s' reqs' notify' c' i' st' y'.
                  loop rt' s' reqs' notify' c' i' st' = Some y'
                  \<Longrightarrow> ?P rt' s' reqs' notify' c' i' st' y'"
      and body: "(if i' < length reqs'
                  then loop rt' s' reqs' notify' c' (i' + c')
                         (batchStep rt' s' reqs' notify' c' i' st')
                  else Some st') = Some y'"
    show "?P rt' s' reqs' notify' c' i' st' y'"
    proof (intro impI, elim conjE)
      assume eqs: "rt' = rt" "s' = s" "reqs' = reqs" "notify' = notify" "c' = c"
        and inv: "I i' st'"
      show "\<exists>j. length reqs \<le> j \<and> I j y'"
      proof (cases "i' < length reqs")
        case True
        with body eqs
        have "loop rt s reqs notify c (i' + c) (batchStep rt s reqs notify c i' st') = Some y'"
          by simp
        from IH [OF this] step [OF inv True] show ?thesis by simp
      next
        case False
        with body eqs have "y' = st'" by simp
        with False inv show ?thesis by (auto intro: exI [of _ i'])
      qed
    qed
  qed
  with init show ?thesis by simp
qed

text \<open>
  With a positive \<open>concurrency\<close> the loop returns.
\<close>

lemma batchLoop_returns:
  assumes "0 < c"
  shows "\<exists>y. batchLoop rt s reqs notify c i st = Some y"
proof (induction "length reqs - i" arbitrary: i st rule: less_induct)
  case less
  show ?case
  proof (cases "i < length reqs")
    case True
    with assms have "length reqs - (i + c) < length reqs - i" by simp
    from less [OF this] True show ?thesis
      by (subst batchLoop.simps) simp
  next
    case False
    then show ?thesis by (subst batchLoop.simps) simp
  qed
qed

lemma batchLoop_step:
  "i < length reqs \<Longrightarrow>
   batchLoop rt s reqs notify c i st
     = batchLoop rt s reqs notify c (i + c) (batchStep rt s reqs notify c i st)"
  by (subst batchLoop.simps) simp

lemma batchLoop_done:
  "length reqs \<le> i \<Longrightarrow> batchLoop rt s reqs notify c i st = Some st"
  by (subst batchLoop.simps) simp

lemma initial_consistent: "consistent n initialState"
  by (simp add: consistent_def initialState_def)

lemma initialState_fields:
  "results initialState = []" "errorList initialState = []"
  "completedCount initialState = 0" "events initialState = []"
  by (simp_all add: initialState_def)

lemma batchLoop_consistent:
  assumes "batchLoop rt s reqs notify c 0 initialState = Some y"
  shows "consistent (length reqs) y \<and> completedCount y = length reqs"
proof -
  define I where
    "I = (\<lambda>i st. consistent (length reqs) st \<and> completedCount st = min i (length reqs))"
  have "\<exists>j. length reqs \<le> j \<and> I j y"
    using assms
  proof (rule batchLoop_invariant)
    show "I 0 initialState"
      by (simp add: I_def initial_consistent initialState_fields)
  next
    fix i st
    assume "I i st" "i < length reqs"
    then show "I (i + c) (batchStep rt s reqs notify c i st)"
      by (auto simp: I_def batchStep_consistent batchStep_fields min_def)
  qed
  then show ?thesis by (auto simp: I_def)
qed

lemma batchLoop_outcome:
  assumes run: "batchLoop rt s reqs notify c 0 initialState = Some y"
  shows "results y = delivered (batchResults (map (settled rt s reqs) [0..<length reqs]))
       \<and> mset (errorList y) = mset (map snd (failed rt (map (settled rt s reqs) [0..<length reqs])))
       \<and> (notify \<longrightarrow> length (snapshots (events y)) = length reqs)"
proof -
  define I where
    "I = (\<lambda>(i :: nat) (st :: BatchState).
       results st = delivered (batchResults (map (settled rt s reqs) [0..<min i (length reqs)]))
       \<and> mset (errorList st)
           = mset (map snd (failed rt (map (settled rt s reqs) [0..<min i (length reqs)])))
       \<and> (notify \<longrightarrow> length (snapshots (events st)) = min i (length reqs)))"
  have "\<exists>j. length reqs \<le> j \<and> I j y"
    using run
  proof (rule batchLoop_invariant)
    show "I 0 initialState"
      by (simp add: I_def initialState_fields failed_def batchResults_def)
  next
    fix i st
    assume inv: "I i st" and i: "i < length reqs"
    have cut: "map (settled rt s reqs) [0..<min (i + c) (length reqs)]
                 = map (settled rt s reqs) [0..<min i (length reqs)]
                   @ map (settled rt s reqs) [i..<min (i + c) (length reqs)]"
      using upt_window [OF i, of c] by (simp flip: map_append)
    have count: "notify \<Longrightarrow>
                 length (snapshots (events (batchStep rt s reqs notify c i st)))
                   = length (snapshots (events st)) + min c (length reqs - i)"
      by (simp add: batchStep_def Let_def slice_window snapshots_append report_count
          del: of_nat_add)
    from inv i count show "I (i + c) (batchStep rt s reqs notify c i st)"
      unfolding I_def cut
      by (auto simp: batchStep_fields settle_settled failed_append batchResults_append
          mset_caught min_def)
  qed
  then show ?thesis by (auto simp: I_def min_def)
qed

lemma batchLoop_last_snapshot:
  assumes run: "batchLoop rt s reqs True c 0 initialState = Some y"
    and "0 < c" "reqs \<noteq> []"
  shows "snapshots (events y) \<noteq> []
       \<and> last (snapshots (events y))
           = (\<lparr> total = length reqs, completed = completedCount y,
                current = current (fst (last (snapshots (events y)))),
                errors = errorList y \<rparr>, results y)"
proof -
  define final where
    "final = (\<lambda>st :: BatchState. snapshots (events st) \<noteq> []
       \<and> last (snapshots (events st))
           = (\<lparr> total = length reqs, completed = completedCount st,
                current = current (fst (last (snapshots (events st)))),
                errors = errorList st \<rparr>, results st))"
  define I where "I = (\<lambda>(i :: nat) st. (i = 0 \<and> st = initialState) \<or> final st)"
  have "\<exists>j. length reqs \<le> j \<and> I j y"
    using run
  proof (rule batchLoop_invariant)
    show "I 0 initialState" by (simp add: I_def)
  next
    fix i st
    assume "I i st" and i: "i < length reqs"
    define rs where "rs = batchResults (settle rt s i (take c (drop i reqs)))"
    define st1 where
      "st1 = st\<lparr>errorList := errorList st
                  @ caught rt (settle rt s i (take c (drop i reqs)))\<rparr>"
    define st2 where "st2 = report rt True (length reqs) rs st1"
    have shape: "batchStep rt s reqs True c i st
                   = (if i + c < length reqs
                      then st2\<lparr>events := events st2 @ [Delay 100]\<rparr>
                      else st2)"
      unfolding st2_def st1_def rs_def batchStep_def Let_def slice_window by (rule refl)
    from i \<open>0 < c\<close> have len: "0 < length rs"
      by (simp add: rs_def)
    then have ne: "rs \<noteq> []"
      by blast
    have cnt: "0 < length (snapshots (events st2))"
      unfolding st2_def report_count using len by (rule trans_less_add2)
    have "final st2"
      unfolding final_def
      using report_last [OF ne, of rt "length reqs" st1] cnt
      by (simp add: report_fields st2_def)
    then have "final (batchStep rt s reqs True c i st)"
      by (simp add: shape final_def snapshots_append)
    then show "I (i + c) (batchStep rt s reqs True c i st)"
      by (simp add: I_def)
  qed
  then obtain j where "length reqs \<le> j" "I j y" by blast
  with \<open>reqs \<noteq> []\<close> have "final y" by (auto simp: I_def)
  then show ?thesis by (simp add: final_def)
qed

subsection \<open>Progress snapshots\<close>

text \<open>
  C9. A run with a positive \<open>concurrency\<close> returns; and in every run that returns,
  each snapshot has \<open>total\<close> equal to the number of requests and \<open>completed\<close> at
  most \<open>total\<close>, and of two snapshots the later extends the earlier: \<open>completed\<close>
  does not decrease, and the error list and the results of the earlier one are initial
  segments of the later one's, as the results at every snapshot are of the returned
  sequence. Nothing recorded is ever removed.
\<close>

theorem batch_progress_grows:
  "(0 < concurrency \<longrightarrow>
      (\<exists>out. batchExplainMoves rt settings requests notify concurrency = Some out))
   \<and> (\<forall>explained evs.
        batchExplainMoves rt settings requests notify concurrency = Some (explained, evs) \<longrightarrow>
          sorted_wrt extends (snapshots evs)
          \<and> (\<forall>a \<in> set (snapshots evs).
                total (fst a) = length requests
                \<and> completed (fst a) \<le> total (fst a)
                \<and> prefix (snd a) explained))"
proof (intro conjI impI allI)
  assume "0 < concurrency"
  then show "\<exists>out. batchExplainMoves rt settings requests notify concurrency = Some out"
    using batchLoop_returns [of concurrency rt settings requests notify 0 initialState]
    by (auto simp: batchExplainMoves_def)
next
  fix explained evs
  assume "batchExplainMoves rt settings requests notify concurrency = Some (explained, evs)"
  then obtain y where
    y: "batchLoop rt settings requests notify concurrency 0 initialState = Some y"
    and out: "explained = results y" "evs = events y"
    by (auto simp: batchExplainMoves_def)
  from batchLoop_consistent [OF y]
  have c: "consistent (length requests) y" and n: "completedCount y = length requests"
    by simp_all
  from c out show "sorted_wrt extends (snapshots evs)"
    by (simp add: consistent_def)
  from c n out show "\<forall>a \<in> set (snapshots evs).
                total (fst a) = length requests
                \<and> completed (fst a) \<le> total (fst a)
                \<and> prefix (snd a) explained"
    by (auto simp: consistent_def list_all_iff extends_def)
qed

text \<open>
  The hypotheses of C9 on seven requests in the concrete world, with concurrency 3:
  the run returns and has seven snapshots.
\<close>

theorem batch_progress_grows_witness:
  "0 < (3 :: nat)
   \<and> (\<exists>explained evs.
        batchExplainMoves demoWorld DEFAULT_SETTINGS (map demoRequest [1..<8]) True 3
          = Some (explained, evs)
        \<and> length (snapshots evs) = 7
        \<and> sorted_wrt extends (snapshots evs)
        \<and> list_all (\<lambda>a. total (fst a) = 7 \<and> completed (fst a) \<le> total (fst a)
                          \<and> prefix (snd a) explained)
            (snapshots evs))"
proof -
  let ?reqs = "map demoRequest [1..<8]"
  note spec = batch_progress_grows [of 3 demoWorld DEFAULT_SETTINGS ?reqs True]
  from spec obtain explained evs where
    run: "batchExplainMoves demoWorld DEFAULT_SETTINGS ?reqs True 3 = Some (explained, evs)"
    by auto
  with spec have inv: "sorted_wrt extends (snapshots evs)"
    "\<forall>a \<in> set (snapshots evs).
        total (fst a) = length ?reqs \<and> completed (fst a) \<le> total (fst a)
        \<and> prefix (snd a) explained"
    by blast+
  from run obtain y where
    y: "batchLoop demoWorld DEFAULT_SETTINGS ?reqs True 3 0 initialState = Some y"
    and evs: "evs = events y"
    by (auto simp: batchExplainMoves_def)
  from batchLoop_outcome [OF y] evs have "length (snapshots evs) = 7" by simp
  with run inv show ?thesis
    by (auto simp: list_all_iff)
qed

subsection \<open>Seven requests, three at a time\<close>

lemma seven_in_three:
  assumes "length reqs = 7"
  shows "batchLoop rt s reqs notify 3 0 st
           = Some (batchStep rt s reqs notify 3 6
                    (batchStep rt s reqs notify 3 3 (batchStep rt s reqs notify 3 0 st)))"
proof -
  have "batchLoop rt s reqs notify 3 0 st
          = batchLoop rt s reqs notify 3 (0 + 3) (batchStep rt s reqs notify 3 0 st)"
    by (rule batchLoop_step) (simp add: assms)
  also have "\<dots> = batchLoop rt s reqs notify 3 (3 + 3)
                     (batchStep rt s reqs notify 3 3 (batchStep rt s reqs notify 3 0 st))"
    using batchLoop_step [of 3 reqs rt s notify 3] by (simp add: assms)
  also have "\<dots> = batchLoop rt s reqs notify 3 (6 + 3)
                     (batchStep rt s reqs notify 3 6
                       (batchStep rt s reqs notify 3 3 (batchStep rt s reqs notify 3 0 st)))"
    using batchLoop_step [of 6 reqs rt s notify 3] by (simp add: assms)
  also have "\<dots> = Some (batchStep rt s reqs notify 3 6
                       (batchStep rt s reqs notify 3 3 (batchStep rt s reqs notify 3 0 st)))"
    by (rule batchLoop_done) (simp add: assms)
  finally show ?thesis .
qed

lemma seven_kinds:
  assumes "length reqs = 7"
    and "batchLoop rt s reqs True 3 0 initialState = Some y"
  shows "map isProgress (events y) = [True, True, True, False, True, True, True, False, True]"
proof -
  from assms have "y = batchStep rt s reqs True 3 6
                        (batchStep rt s reqs True 3 3 (batchStep rt s reqs True 3 0 initialState))"
    by (simp add: seven_in_three)
  then show ?thesis
    by (simp add: batchStep_kinds assms(1) initialState_fields numeral_3_eq_3)
qed

lemma all_succeed:
  assumes "\<forall>k \<in> set ks. \<exists>x. explainMove rt s k (reqs ! k) = Inr x"
  shows "failed rt (map (settled rt s reqs) ks) = []
       \<and> length (delivered (batchResults (map (settled rt s reqs) ks))) = length ks"
  using assms
  by (induction ks) (auto simp: failed_def batchResults_def settled_def)

lemma one_fails:
  assumes j: "j < n"
    and fail: "explainMove rt s j (reqs ! j) = Inl e"
    and rest: "\<forall>k < n. k \<noteq> j \<longrightarrow> (\<exists>x. explainMove rt s k (reqs ! k) = Inr x)"
  shows "failed rt (map (settled rt s reqs) [0..<n]) = [(finishedAt rt j, errorMsg rt (reqs ! j) e)]
       \<and> length (delivered (batchResults (map (settled rt s reqs) [0..<n]))) = n - 1"
proof -
  have cut: "[0..<n] = [0..<j] @ j # [Suc j..<n]"
  proof -
    obtain d where d: "n = j + d" using j by (metis less_imp_add_positive)
    have "[0..<j + d] = [0..<j] @ [j..<j + d]" by (rule upt_add_eq_append) simp
    moreover have "[j..<n] = j # [Suc j..<n]" using j by (rule upt_conv_Cons)
    ultimately show ?thesis by (simp add: d)
  qed
  have before: "\<forall>k \<in> set [0..<j]. \<exists>x. explainMove rt s k (reqs ! k) = Inr x"
    using j rest by auto
  have after: "\<forall>k \<in> set [Suc j..<n]. \<exists>x. explainMove rt s k (reqs ! k) = Inr x"
    using rest by auto
  have mid: "failed rt [settled rt s reqs j] = [(finishedAt rt j, errorMsg rt (reqs ! j) e)]"
    "delivered (batchResults [settled rt s reqs j]) = []"
    using fail by (simp_all add: failed_def batchResults_def settled_def)
  have f: "failed rt (map (settled rt s reqs) [0..<n])
             = failed rt (map (settled rt s reqs) [0..<j]) @ failed rt [settled rt s reqs j]
               @ failed rt (map (settled rt s reqs) [Suc j..<n])"
    by (subst cut) (simp add: failed_def)
  have d: "delivered (batchResults (map (settled rt s reqs) [0..<n]))
             = delivered (batchResults (map (settled rt s reqs) [0..<j]))
               @ delivered (batchResults [settled rt s reqs j])
               @ delivered (batchResults (map (settled rt s reqs) [Suc j..<n]))"
    by (subst cut) (simp add: batchResults_def delivered_def)
  from all_succeed [OF before] all_succeed [OF after] mid j
  show ?thesis
    unfolding f d by simp
qed

lemma errorMsg_prefix:
  "prefix (lit ''Move '' @ intToString rt (int (moveNumber r)) @ lit '': '') (errorMsg rt r e)"
  by (simp add: errorMsg_def)

lemma demoRequests_nth: "k < 7 \<Longrightarrow> map demoRequest [1..<8] ! k = demoRequest (Suc k)"
  by simp

lemma errorMsg_demo:
  "errorMsg demoWorld (demoRequest 5) (Error (lit ''OpenAI API error: 500 Server Error''))
     = lit ''Move 5: OpenAI API error: 500 Server Error''"
  using numberToString_int [of 5 "shortest demoWorld"]
  by (simp add: errorMsg_def intToString_def demoRequest_def decimal_small digit_def lit_def)

text \<open>
  C1. Seven requests with concurrency 3 and a progress callback: the run returns; its
  events are three calls of the callback, a pause, three calls, a pause and one call,
  seven calls in all; the last snapshot has \<open>completed = 7\<close>; and when request \<open>j\<close>
  fails and the six others succeed, six explanations are returned and the error list
  of the last snapshot has the one entry of that request, which starts with "Move",
  its move number and a colon.
\<close>

theorem batch_of_seven:
  assumes "length requests = 7"
  shows "\<exists>explained evs.
     batchExplainMoves rt settings requests True 3 = Some (explained, evs)
     \<and> map isProgress evs = [True, True, True, False, True, True, True, False, True]
     \<and> length (snapshots evs) = 7
     \<and> completed (fst (last (snapshots evs))) = 7
     \<and> (\<forall>j e. j < 7 \<and> explainMove rt settings j (requests ! j) = Inl e
              \<and> (\<forall>k < 7. k \<noteq> j \<longrightarrow> (\<exists>x. explainMove rt settings k (requests ! k) = Inr x))
          \<longrightarrow> length explained = 6
              \<and> errors (fst (last (snapshots evs))) = [errorMsg rt (requests ! j) e]
              \<and> prefix (lit ''Move '' @ intToString rt (int (moveNumber (requests ! j)))
                         @ lit '': '')
                  (errorMsg rt (requests ! j) e))"
proof -
  obtain y where y: "batchLoop rt settings requests True 3 0 initialState = Some y"
    using batchLoop_returns [of 3 rt settings requests True 0 initialState] by auto
  have ne: "requests \<noteq> []" using assms by auto
  note outcome = batchLoop_outcome [OF y]
  note final = batchLoop_last_snapshot [OF y _ ne, simplified]
  note total = batchLoop_consistent [OF y]
  have last_fields:
    "completed (fst (last (snapshots (events y)))) = completedCount y"
    "errors (fst (last (snapshots (events y)))) = errorList y"
    using final by (metis BatchExplanationProgress.select_convs(2,4) fst_conv)+
  have single: "length (results y) = 6
              \<and> errors (fst (last (snapshots (events y)))) = [errorMsg rt (requests ! j) e]
              \<and> prefix (lit ''Move '' @ intToString rt (int (moveNumber (requests ! j)))
                         @ lit '': '')
                  (errorMsg rt (requests ! j) e)"
    if "j < 7" "explainMove rt settings j (requests ! j) = Inl e"
      "\<forall>k < 7. k \<noteq> j \<longrightarrow> (\<exists>x. explainMove rt settings k (requests ! k) = Inr x)"
    for j e
  proof -
    from one_fails [of j 7 rt settings requests e] that
    have "failed rt (map (settled rt settings requests) [0..<7])
            = [(finishedAt rt j, errorMsg rt (requests ! j) e)]"
      and "length (delivered (batchResults (map (settled rt settings requests) [0..<7]))) = 6"
      by simp_all
    with outcome assms have "length (results y) = 6"
      and "mset (errorList y) = {#errorMsg rt (requests ! j) e#}"
      by simp_all
    then show ?thesis
      by (simp add: last_fields errorMsg_prefix)
  qed
  show ?thesis
  proof (intro exI [of _ "results y"] exI [of _ "events y"] conjI allI impI)
    show "batchExplainMoves rt settings requests True 3 = Some (results y, events y)"
      by (simp add: batchExplainMoves_def y)
    show "map isProgress (events y)
                   = [True, True, True, False, True, True, True, False, True]"
      using assms y by (rule seven_kinds)
    show "length (snapshots (events y)) = 7"
      using outcome assms by simp
    show "completed (fst (last (snapshots (events y)))) = 7"
      using total assms by (simp add: last_fields)
  next
    fix j e
    assume "j < 7 \<and> explainMove rt settings j (requests ! j) = Inl e
              \<and> (\<forall>k < 7. k \<noteq> j \<longrightarrow> (\<exists>x. explainMove rt settings k (requests ! k) = Inr x))"
    then have s: "length (results y) = 6
              \<and> errors (fst (last (snapshots (events y)))) = [errorMsg rt (requests ! j) e]
              \<and> prefix (lit ''Move '' @ intToString rt (int (moveNumber (requests ! j)))
                         @ lit '': '')
                  (errorMsg rt (requests ! j) e)"
      using single by blast
    from s show "length (results y) = 6" by simp
    from s show "errors (fst (last (snapshots (events y)))) = [errorMsg rt (requests ! j) e]"
      by simp
    from s show "prefix (lit ''Move '' @ intToString rt (int (moveNumber (requests ! j)))
                         @ lit '': '')
                  (errorMsg rt (requests ! j) e)"
      by simp
  qed
qed

text \<open>
  The hypotheses of C1 in the concrete world: of seven requests the fifth, with move
  number 5, is answered with status 500.
\<close>

theorem batch_of_seven_witness:
  "length (map demoRequest [1..<8]) = 7
   \<and> explainMove demoWorld DEFAULT_SETTINGS 4 (map demoRequest [1..<8] ! 4)
       = Inl (Error (lit ''OpenAI API error: 500 Server Error''))
   \<and> list_all (\<lambda>k. k = 4 \<or> (\<exists>x. explainMove demoWorld DEFAULT_SETTINGS k
                                     (map demoRequest [1..<8] ! k) = Inr x)) [0..<7]
   \<and> (\<exists>explained evs.
        batchExplainMoves demoWorld DEFAULT_SETTINGS (map demoRequest [1..<8]) True 3
          = Some (explained, evs)
        \<and> length (snapshots evs) = 7
        \<and> length explained = 6
        \<and> errors (fst (last (snapshots evs)))
            = [lit ''Move 5: OpenAI API error: 500 Server Error''])"
proof -
  let ?reqs = "map demoRequest [1..<8]"
  have len: "length ?reqs = 7" by simp
  have fail: "explainMove demoWorld DEFAULT_SETTINGS 4 (?reqs ! 4)
       = Inl (Error (lit ''OpenAI API error: 500 Server Error''))"
    by (simp add: explainMove_demo_fails)
  have rest: "\<forall>k < 7. k \<noteq> 4 \<longrightarrow> (\<exists>x. explainMove demoWorld DEFAULT_SETTINGS k (?reqs ! k) = Inr x)"
    using explainMove_demo_succeeds by (simp del: upt_Suc)
  then have all: "list_all (\<lambda>k. k = 4 \<or> (\<exists>x. explainMove demoWorld DEFAULT_SETTINGS k
                                     (?reqs ! k) = Inr x)) [0..<7]"
    unfolding list_all_iff by auto
  have msg: "errorMsg demoWorld (?reqs ! 4) (Error (lit ''OpenAI API error: 500 Server Error''))
     = lit ''Move 5: OpenAI API error: 500 Server Error''"
    using errorMsg_demo by simp
  from batch_of_seven [OF len, of demoWorld DEFAULT_SETTINGS]
  obtain explained evs where
    run: "batchExplainMoves demoWorld DEFAULT_SETTINGS ?reqs True 3 = Some (explained, evs)"
    and cnt: "length (snapshots evs) = 7"
    and one: "\<forall>j e. j < 7 \<and> explainMove demoWorld DEFAULT_SETTINGS j (?reqs ! j) = Inl e
              \<and> (\<forall>k < 7. k \<noteq> j \<longrightarrow> (\<exists>x. explainMove demoWorld DEFAULT_SETTINGS k (?reqs ! k) = Inr x))
          \<longrightarrow> length explained = 6
              \<and> errors (fst (last (snapshots evs))) = [errorMsg demoWorld (?reqs ! j) e]
              \<and> prefix (lit ''Move '' @ intToString demoWorld (int (moveNumber (?reqs ! j)))
                         @ lit '': '')
                  (errorMsg demoWorld (?reqs ! j) e)"
    by blast
  have "(4 :: nat) < 7" by simp
  with one fail rest have "length explained = 6
    \<and> errors (fst (last (snapshots evs)))
           = [errorMsg demoWorld (?reqs ! 4) (Error (lit ''OpenAI API error: 500 Server Error''))]"
    by blast
  with msg run cnt len fail all show ?thesis by auto
qed

section \<open>The game service\<close>

subsection \<open>The statistics count the requests\<close>

lemma loops_agree:
  assumes "movesToExplain stats = length requests"
  shows "map_sum (\<lambda>e. e) movesToExplain (statsLoop rt ps is stats)
           = map_sum (\<lambda>e. e) length (buildLoop rt fens uciMoves ps is requests)"
  using assms
proof (induction "is" arbitrary: requests stats)
  case Nil
  then show ?case by simp
next
  case (Cons i "is")
  show ?case
  proof (cases "moveClassification (ps ! i)")
    case None
    with Cons show ?thesis by simp
  next
    case (Some cls)
    show ?thesis
    proof (cases "getPositionWinPercentage rt (ps ! (i - 1))")
      case (Inl e)
      with Some show ?thesis by (simp add: Let_def)
    next
      case prev: (Inr previousWin)
      show ?thesis
      proof (cases "getPositionWinPercentage rt (ps ! i)")
        case (Inl e)
        with Some prev show ?thesis by (simp add: Let_def)
      next
        case cur: (Inr currentWin)
        from Cons.prems Some prev cur show ?thesis
          by (auto simp: Let_def intro!: Cons.IH)
      qed
    qed
  qed
qed

text \<open>
  C10. \<open>getExplanationStats\<close> and \<open>buildExplanationRequests\<close> walk the same
  positions, whatever \<open>fens\<close> and \<open>uciMoves\<close> are: when the second returns, the
  first returns with \<open>movesToExplain\<close> equal to the number of requests, and when the
  second throws (a win percentage cannot be computed), the first throws the same.
\<close>

theorem stats_count_requests:
  "(case buildExplanationRequests rt fens uciMoves (positions gameEval) of
      Inl e \<Rightarrow> getExplanationStats rt gameEval = Inl e
    | Inr requests \<Rightarrow>
        (\<exists>stats. getExplanationStats rt gameEval = Inr stats
                 \<and> movesToExplain stats = length requests))"
proof -
  have "map_sum (\<lambda>e. e) movesToExplain (getExplanationStats rt gameEval)
          = map_sum (\<lambda>e. e) length
              (buildExplanationRequests rt fens uciMoves (positions gameEval))"
    unfolding buildExplanationRequests_def getExplanationStats_def
    by (rule loops_agree) simp
  then show ?thesis
    by (cases "buildExplanationRequests rt fens uciMoves (positions gameEval)";
        cases "getExplanationStats rt gameEval") simp_all
qed

subsection \<open>Only accepted moves are explained\<close>

lemma buildLoop_accepted:
  assumes "buildLoop rt fens uciMoves ps is requests = Inr out"
    and "\<forall>i \<in> set is. 1 \<le> i \<and> i < length ps"
    and "\<forall>r \<in> set requests. accepted rt ps (moveNumber r)"
  shows "\<forall>r \<in> set out. accepted rt ps (moveNumber r)"
  using assms
proof (induction "is" arbitrary: requests)
  case Nil
  then show ?case by simp
next
  case (Cons i "is")
  from Cons.prems(2) have i: "1 \<le> i" "i < length ps"
    and rest: "\<forall>i \<in> set is. 1 \<le> i \<and> i < length ps"
    by simp_all
  show ?case
  proof (cases "moveClassification (ps ! i)")
    case None
    with Cons.prems(1) have "buildLoop rt fens uciMoves ps is requests = Inr out"
      by simp
    then show ?thesis using rest Cons.prems(3) by (rule Cons.IH)
  next
    case (Some cls)
    from Cons.prems(1) Some obtain previousWin currentWin where
      wins: "getPositionWinPercentage rt (ps ! (i - 1)) = Inr previousWin"
        "getPositionWinPercentage rt (ps ! i) = Inr currentWin"
      by (auto simp: Let_def split: sum.splits)
    show ?thesis
    proof (cases "shouldExplainMove DEFAULT_SETTINGS cls (js_abs (js_sub currentWin previousWin))")
      case False
      with Cons.prems(1) Some wins have "buildLoop rt fens uciMoves ps is requests = Inr out"
        by (simp add: Let_def)
      then show ?thesis using rest Cons.prems(3) by (rule Cons.IH)
    next
      case True
      define r where
        "r = \<lparr> fen = item fens (i - 1), uciMove = item uciMoves (i - 1), moveNumber = i,
               positionEval = ps ! i, previousPositionEval = Some (ps ! (i - 1)),
               classification = cls, opening_r = opening_p (ps ! i),
               previousWinPercentage = previousWin, currentWinPercentage = currentWin,
               isWhiteMove = (i mod 2 = 1) \<rparr>"
      from Cons.prems(1) Some wins True
      have run: "buildLoop rt fens uciMoves ps is (requests @ [r]) = Inr out"
        by (simp add: Let_def r_def)
      have "accepted rt ps (moveNumber r)"
        using i Some wins True by (simp add: accepted_def r_def)
      with Cons.prems(3) have "\<forall>q \<in> set (requests @ [r]). accepted rt ps (moveNumber q)"
        by simp
      with run rest show ?thesis by (rule Cons.IH)
    qed
  qed
qed

lemma delivered_settled:
  assumes "x \<in> set (delivered (batchResults (map (settled rt s reqs) ks)))"
  shows "\<exists>k \<in> set ks. explainMove rt s k (reqs ! k) = Inr x"
  using assms
  by (induction ks) (auto simp: batchResults_def settled_def delivered_def split: sum.splits)

lemma dom_collect:
  "dom (foldl (\<lambda>m x. m(moveNumber_e x \<mapsto> x)) m0 xs) = dom m0 \<union> moveNumber_e ` set xs"
  by (induction xs arbitrary: m0) auto

lemma batch_explains_requests:
  assumes "batchExplainMoves rt s reqs notify c = Some (explained, evs)"
  shows "moveNumber_e ` set explained \<subseteq> moveNumber ` set reqs"
proof
  fix n
  assume "n \<in> moveNumber_e ` set explained"
  then obtain x where x: "x \<in> set explained" "n = moveNumber_e x" by blast
  from assms obtain y where
    y: "batchLoop rt s reqs notify c 0 initialState = Some y" and "explained = results y"
    by (auto simp: batchExplainMoves_def)
  with x batchLoop_outcome [OF y]
  have "x \<in> set (delivered (batchResults (map (settled rt s reqs) [0..<length reqs])))"
    by simp
  then obtain k where "k < length reqs" "explainMove rt s k (reqs ! k) = Inr x"
    using delivered_settled by fastforce
  with x show "n \<in> moveNumber ` set reqs"
    using explainMove_moveNumber by fastforce
qed

text \<open>
  C2. \<open>explainGame\<close> always comes back, and when it returns an aggregate, every key
  of its \<open>explanations\<close> is the index of a position that has a classification and
  whose classification and absolute win-percentage change the policy accepts.
\<close>

theorem explainGame_only_accepted:
  "explainGame rt game pgn gameEval notify \<noteq> None
   \<and> (\<forall>g. explainGame rt game pgn gameEval notify = Some (Inr g)
          \<longrightarrow> (\<forall>i \<in> dom (explanations g). accepted rt (positions gameEval) i))"
proof (intro conjI allI impI ballI)
  have ret: "\<exists>a b. batchExplainMoves rt DEFAULT_SETTINGS reqs notify 3 = Some (a, b)" for reqs
    using batchLoop_returns [of 3 rt DEFAULT_SETTINGS reqs notify 0 initialState]
    by (auto simp: batchExplainMoves_def)
  show "explainGame rt game pgn gameEval notify \<noteq> None"
  proof (cases "loadPgn rt pgn")
    case (Inl e)
    then show ?thesis by (simp add: explainGame_def)
  next
    case h: (Inr history)
    show ?thesis
    proof (cases "replay rt [] history")
      case (Inl e)
      with h show ?thesis by (simp add: explainGame_def)
    next
      case a: (Inr later)
      show ?thesis
      proof (cases "buildExplanationRequests rt (initialFen rt # later) (map uciOf history)
                      (positions gameEval)")
        case (Inl e)
        with h a show ?thesis by (simp add: explainGame_def)
      next
        case (Inr requests)
        from ret [of requests] obtain x y where
          "batchExplainMoves rt DEFAULT_SETTINGS requests notify 3 = Some (x, y)"
          by blast
        with h a Inr show ?thesis by (simp add: explainGame_def)
      qed
    qed
  qed
next
  fix g i
  assume run: "explainGame rt game pgn gameEval notify = Some (Inr g)"
    and i: "i \<in> dom (explanations g)"
  from run obtain fens uciMoves requests explained evs where
    build: "buildExplanationRequests rt fens uciMoves (positions gameEval) = Inr requests"
    and batch: "batchExplainMoves rt DEFAULT_SETTINGS requests notify 3 = Some (explained, evs)"
    and g: "explanations g = foldl (\<lambda>m x. m(moveNumber_e x \<mapsto> x)) Map.empty explained"
    by (auto simp: explainGame_def Let_def split: sum.splits option.splits)
  from i g have "i \<in> moveNumber_e ` set explained"
    by (simp add: dom_collect)
  with batch_explains_requests [OF batch] obtain r where
    r: "r \<in> set requests" "i = moveNumber r"
    by blast
  from build have "\<forall>r \<in> set requests. accepted rt (positions gameEval) (moveNumber r)"
    unfolding buildExplanationRequests_def
    by (rule buildLoop_accepted) simp_all
  with r show "accepted rt (positions gameEval) i" by simp
qed

text \<open>
  The hypotheses of C2 on the concrete game: the aggregate has the one key 1, the
  blunder.
\<close>

theorem explainGame_only_accepted_witness:
  "\<exists>g. explainGame demoWorld 1 (lit ''1. e4 e5'') demoGame True = Some (Inr g)
       \<and> dom (explanations g) = {1}
       \<and> accepted demoWorld (positions demoGame) 1"
proof -
  define fens where "fens = [lit ''start'', lit ''later'', lit ''later'']"
  define ucis where "ucis = [lit ''e2e4'', lit ''e7e5'']"
  define r where
    "r = \<lparr> fen = Some (lit ''start''), uciMove = Some (lit ''e2e4''), moveNumber = 1,
           positionEval = demoPosition (Some Blunder) 20,
           previousPositionEval = Some (demoPosition None 50),
           classification = Blunder, opening_r = None,
           previousWinPercentage = Finite 50, currentWinPercentage = Finite 20,
           isWhiteMove = True \<rparr>"
  have upt: "[1..<3] = [1, 2 :: nat]"
    by (simp add: upt_rec)
  have build: "buildExplanationRequests demoWorld fens ucis (positions demoGame) = Inr [r]"
    by (simp add: buildExplanationRequests_def demoGame_def demoPosition_def upt
        demoWorld_game_fields item_def shouldExplainMove_def fens_def ucis_def r_def Let_def)
  obtain x where x: "explainMove demoWorld DEFAULT_SETTINGS 0 r = Inr x"
    using explainMove_demo_answers [of 0 r DEFAULT_SETTINGS]
    by (auto simp: r_def demoPosition_def)
  obtain y where y: "batchLoop demoWorld DEFAULT_SETTINGS [r] True 3 0 initialState = Some y"
    using batchLoop_returns [of 3 demoWorld DEFAULT_SETTINGS "[r]" True 0 initialState] by auto
  from batchLoop_outcome [OF y] x have res: "results y = [x]"
    by (simp add: batchResults_def settled_def)
  have batch: "batchExplainMoves demoWorld DEFAULT_SETTINGS [r] True 3 = Some ([x], events y)"
    by (simp add: batchExplainMoves_def y res)
  have game: "explainGame demoWorld 1 (lit ''1. e4 e5'') demoGame True
          = Some (Inr \<lparr> gameId = 1, explanations = [moveNumber_e x \<mapsto> x],
                         generatedAt_g = finalClock demoWorld, version_g = lit ''1.0'' \<rparr>)"
    using build batch
    by (simp add: explainGame_def demoWorld_game_fields uciOf_def fens_def ucis_def
        flip: lit_append)
  have n: "moveNumber_e x = 1"
    using explainMove_moveNumber [OF x] by (simp add: r_def)
  from explainGame_only_accepted [of demoWorld 1 "lit ''1. e4 e5''" demoGame True] game n
  have "accepted demoWorld (positions demoGame) 1"
    by simp
  with game n show ?thesis by simp
qed

end
